theory Spec2Isabelle
  imports Complex_Main "HOL-Library.Char_ord" "HOL-Library.List_Lexorder"
begin

section \<open>Raw values\<close>

text \<open>
  The source file is read by \<^verbatim>\<open>pd.read_csv(..., encoding='latin-1')\<close>: every byte is one
  character, so text is a \<^typ>\<open>string\<close>. A cell of the frame is a missing
  marker (\<^verbatim>\<open>None\<close>, or the float NaN that \<^verbatim>\<open>read_csv\<close> puts for an empty
  cell), text, a 64-bit integer or a float. Floats are kept by class: a finite float is
  the rational it denotes.
\<close>

datatype pyfloat = Finite rat | PosInf | NegInf | NaN

datatype scalar = PyNone | PyStr string | PyInt int | PyFloat pyfloat

datatype exn = ValueError | TypeError | OverflowError | ZeroDivisionError | DbError

text \<open>
  Two builtins of the interpreter are parameters of the model: \<^verbatim>\<open>float(s)\<close> on text
  (\<open>None\<close> when it raises \<^verbatim>\<open>ValueError\<close>) and \<^verbatim>\<open>str(x)\<close> on a finite float.
\<close>

record builtins =
  float_of_str :: "string \<Rightarrow> pyfloat option"
  repr_float :: "rat \<Rightarrow> string"

fun pd_isna :: "scalar \<Rightarrow> bool" where
  "pd_isna PyNone = True"
| "pd_isna (PyFloat NaN) = True"
| "pd_isna _ = False"

definition pd_notna :: "scalar \<Rightarrow> bool" where
  "pd_notna v = (\<not> pd_isna v)"

fun py_float :: "builtins \<Rightarrow> scalar \<Rightarrow> exn + pyfloat" where
  "py_float py PyNone = Inl TypeError"
| "py_float py (PyStr s) = (case float_of_str py s of None \<Rightarrow> Inl ValueError | Some f \<Rightarrow> Inr f)"
| "py_float py (PyInt i) = Inr (Finite (of_int i))"
| "py_float py (PyFloat f) = Inr f"

text \<open>\<^verbatim>\<open>int(f)\<close> on a float truncates towards zero; it raises on NaN and on the infinities.\<close>

fun py_int :: "pyfloat \<Rightarrow> exn + int" where
  "py_int (Finite q) = Inr (if 0 \<le> q then \<lfloor>q\<rfloor> else \<lceil>q\<rceil>)"
| "py_int NaN = Inl ValueError"
| "py_int PosInf = Inl OverflowError"
| "py_int NegInf = Inl OverflowError"

text \<open>The handler \<^verbatim>\<open>except (ValueError, TypeError): return None\<close> of both coercions.\<close>

fun except_value_type :: "exn + 'a \<Rightarrow> exn + 'a option" where
  "except_value_type (Inr x) = Inr (Some x)"
| "except_value_type (Inl ValueError) = Inr None"
| "except_value_type (Inl TypeError) = Inr None"
| "except_value_type (Inl e) = Inl e"

definition clean_numeric :: "builtins \<Rightarrow> scalar \<Rightarrow> exn + pyfloat option" where
  "clean_numeric py v =
     (if pd_isna v then Inr None else except_value_type (py_float py v))"

definition clean_int :: "builtins \<Rightarrow> scalar \<Rightarrow> exn + int option" where
  "clean_int py v =
     (if pd_isna v then Inr None
      else except_value_type (case py_float py v of Inl e \<Rightarrow> Inl e | Inr f \<Rightarrow> py_int f))"

subsection \<open>Text\<close>

text \<open>
  \<^verbatim>\<open>str.strip()\<close> removes the white space of both ends. Among the 256 characters of
  latin-1 the white space is 9 to 13, 28 to 32, 133 and 160.
\<close>

definition is_space :: "char \<Rightarrow> bool" where
  "is_space c =
     (let n = (of_char c :: nat)
      in (9 \<le> n \<and> n \<le> 13) \<or> (28 \<le> n \<and> n \<le> 32) \<or> n = 133 \<or> n = 160)"

definition strip :: "string \<Rightarrow> string" where
  "strip s = rev (dropWhile is_space (rev (dropWhile is_space s)))"

function digits :: "nat \<Rightarrow> string" where
  "digits n =
     (if n < 10 then [''0123456789'' ! n] else digits (n div 10) @ [''0123456789'' ! (n mod 10)])"
  by pat_completeness auto
termination
  by (relation "measure id") auto

declare digits.simps [simp del]

definition str_int :: "int \<Rightarrow> string" where
  "str_int i = (if i < 0 then CHR ''-'' # digits (nat (- i)) else digits (nat i))"

fun py_str :: "builtins \<Rightarrow> scalar \<Rightarrow> string" where
  "py_str py PyNone = ''None''"
| "py_str py (PyStr s) = s"
| "py_str py (PyInt i) = str_int i"
| "py_str py (PyFloat (Finite q)) = repr_float py q"
| "py_str py (PyFloat PosInf) = ''inf''"
| "py_str py (PyFloat NegInf) = ''-inf''"
| "py_str py (PyFloat NaN) = ''nan''"

section \<open>The source frame and the sink\<close>

text \<open>
  A row of the frame. The two key columns are typed as the pipeline uses them (the
  source customer identifier is an integer, the product name is text) and \<open>None\<close>
  stands for a missing value. Every other column is looked up by its name in
  \<open>cells\<close>, where \<open>None\<close> says that the frame has no such column. A row's label
  in \<^verbatim>\<open>iterrows()\<close> is its position in the list.
\<close>

record raw_row =
  Customer_Id :: "int option"
  Product_Name :: "string option"
  cells :: "string \<rightharpoonup> scalar"

type_synonym frame = "raw_row list"

text \<open>\<^verbatim>\<open>row.get(c)\<close> and \<^verbatim>\<open>row.get(c, d)\<close>.\<close>

definition get :: "(string \<rightharpoonup> scalar) \<Rightarrow> string \<Rightarrow> scalar" where
  "get row c = (case row c of None \<Rightarrow> PyNone | Some v \<Rightarrow> v)"

definition get_default :: "(string \<rightharpoonup> scalar) \<Rightarrow> string \<Rightarrow> scalar \<Rightarrow> scalar" where
  "get_default row c d = (case row c of None \<Rightarrow> d | Some v \<Rightarrow> v)"

datatype sqlval = Null | Text string | Integer int | Double pyfloat

datatype table = Customers | Products | Orders | Shipping_details

text \<open>
  What one \<^verbatim>\<open>cursor.execute(insert_query, ...)\<close> followed by \<^verbatim>\<open>cursor.fetchone()\<close>
  can do: raise \<^verbatim>\<open>psycopg2.Error\<close>, give no row, or give a row whose first column is
  the generated key. The sink is any state machine with these answers; \<open>commit\<close>
  answers \<open>False\<close> when \<^verbatim>\<open>conn.commit()\<close> raises \<^verbatim>\<open>psycopg2.Error\<close>.
\<close>

datatype outcome = Raises | NoRow | Row int

record 'db sink =
  execute :: "'db \<Rightarrow> table \<Rightarrow> sqlval list \<Rightarrow> outcome \<times> 'db"
  commit :: "'db \<Rightarrow> bool \<times> 'db"

definition bindE :: "exn + 'a \<Rightarrow> ('a \<Rightarrow> exn + 'b) \<Rightarrow> exn + 'b" where
  "bindE m f = (case m of Inl e \<Rightarrow> Inl e | Inr x \<Rightarrow> f x)"

text \<open>\<^verbatim>\<open>str(row.get(c, '')) if pd.notna(row.get(c)) else None\<close>.\<close>

definition text_or_null :: "builtins \<Rightarrow> (string \<rightharpoonup> scalar) \<Rightarrow> string \<Rightarrow> sqlval" where
  "text_or_null py row c =
     (if pd_notna (get row c) then Text (py_str py (get_default row c (PyStr ''''))) else Null)"

definition double_or_null :: "pyfloat option \<Rightarrow> sqlval" where
  "double_or_null x = (case x of None \<Rightarrow> Null | Some f \<Rightarrow> Double f)"

definition integer_or_null :: "int option \<Rightarrow> sqlval" where
  "integer_or_null x = (case x of None \<Rightarrow> Null | Some i \<Rightarrow> Integer i)"

text \<open>
  \<^verbatim>\<open>if not key:\<close> on the result of \<^verbatim>\<open>dict.get\<close>: a missing entry and the key 0 are
  both false.
\<close>

definition truthy :: "int option \<Rightarrow> bool" where
  "truthy x = (case x of None \<Rightarrow> False | Some k \<Rightarrow> k \<noteq> 0)"

section \<open>Deduplication\<close>

text \<open>
  \<^verbatim>\<open>groupby(key, as_index=False).first()\<close>: the groups come sorted by key, and each
  column of a group's row is the first value of that column in the group that is not
  missing. Where a group has no value for a column, the result is \<^verbatim>\<open>None\<close> in a column
  of text (dtype object) and NaN in a numeric column.
\<close>

definition object_col :: "frame \<Rightarrow> string \<Rightarrow> bool" where
  "object_col df c = list_ex (\<lambda>r. case cells r c of Some (PyStr s) \<Rightarrow> True | _ \<Rightarrow> False) df"

definition na_value :: "frame \<Rightarrow> string \<Rightarrow> scalar" where
  "na_value df c = (if object_col df c then PyNone else PyFloat NaN)"

definition first_valid :: "scalar \<Rightarrow> scalar list \<Rightarrow> scalar" where
  "first_valid na vs = (case filter pd_notna vs of [] \<Rightarrow> na | v # _ \<Rightarrow> v)"

definition group_first :: "(string \<Rightarrow> scalar) \<Rightarrow> (string \<rightharpoonup> scalar) list \<Rightarrow> (string \<rightharpoonup> scalar)" where
  "group_first na rows =
     (case rows of
        [] \<Rightarrow> Map.empty
      | r # _ \<Rightarrow> (\<lambda>c. case r c of
                        None \<Rightarrow> None
                      | Some _ \<Rightarrow> Some (first_valid (na c) (map (\<lambda>row. get row c) rows))))"

definition groupby_first ::
  "(string \<Rightarrow> scalar) \<Rightarrow> ('k::linorder \<times> (string \<rightharpoonup> scalar)) list \<Rightarrow> ('k \<times> (string \<rightharpoonup> scalar)) list" where
  "groupby_first na xs =
     map (\<lambda>k. (k, group_first na (map snd (filter (\<lambda>x. fst x = k) xs))))
         (sort (remdups (map fst xs)))"

section \<open>Customer loader\<close>

definition customer_cols :: "string list" where
  "customer_cols =
     [''Customer Id'', ''Customer Email'', ''Customer Fname'', ''Customer Lname'',
      ''Customer Segment'', ''Customer City'', ''Customer State'', ''Customer Country'',
      ''Customer Zipcode'', ''Customer Street'', ''Latitude'', ''Longitude'']"

text \<open>
  \<^verbatim>\<open>customers = self.df[[...]].copy()\<close>, then the rows whose \<^verbatim>\<open>'Customer Id'\<close> is not
  missing, each as its identifier and its customer columns.
\<close>

definition customers :: "frame \<Rightarrow> (int \<times> (string \<rightharpoonup> scalar)) list" where
  "customers df =
     List.map_filter
       (\<lambda>r. case Customer_Id r of None \<Rightarrow> None | Some k \<Rightarrow> Some (k, cells r |` set customer_cols)) df"

definition customers_unique :: "frame \<Rightarrow> (int \<times> (string \<rightharpoonup> scalar)) list" where
  "customers_unique df = groupby_first (na_value df) (customers df)"

text \<open>The eleven values of the insert into \<^verbatim>\<open>customers\<close>, evaluated left to right.\<close>

definition customer_email :: "builtins \<Rightarrow> int \<Rightarrow> (string \<rightharpoonup> scalar) \<Rightarrow> string" where
  "customer_email py source_id row =
     py_str py (get_default row ''Customer Email''
       (PyStr (''customer_'' @ str_int source_id @ ''@placeholder.com'')))"

definition customer_values :: "builtins \<Rightarrow> int \<Rightarrow> (string \<rightharpoonup> scalar) \<Rightarrow> exn + sqlval list" where
  "customer_values py source_id row =
     (let email = customer_email py source_id row;
          fname = py_str py (get_default row ''Customer Fname'' (PyStr ''''));
          lname = py_str py (get_default row ''Customer Lname'' (PyStr ''''))
      in bindE (clean_numeric py (get row ''Latitude'')) (\<lambda>latitude.
         bindE (clean_numeric py (get row ''Longitude'')) (\<lambda>longitude.
         Inr [Text email, Text fname, Text lname,
              text_or_null py row ''Customer Segment'',
              text_or_null py row ''Customer City'',
              text_or_null py row ''Customer State'',
              text_or_null py row ''Customer Country'',
              text_or_null py row ''Customer Zipcode'',
              text_or_null py row ''Customer Street'',
              double_or_null latitude, double_or_null longitude])))"

record 'db conn_state =
  db :: 'db

record ('k, 'db) load_state = "'db conn_state" +
  key_map :: "'k \<rightharpoonup> int"
  imported :: nat

text \<open>
  One turn of the loop of \<^verbatim>\<open>import_customers\<close>. Its handler is
  \<^verbatim>\<open>except Exception: continue\<close>: whatever is raised, by the coercions, the insert or
  the commit of a batch, the loop goes on with what was done so far.
\<close>

definition customers_step ::
  "builtins \<Rightarrow> 'db sink \<Rightarrow> int \<times> (string \<rightharpoonup> scalar) \<Rightarrow> (int, 'db) load_state \<Rightarrow> (int, 'db) load_state" where
  "customers_step py snk x s =
     (case x of (source_id, row) \<Rightarrow>
        (case customer_values py source_id row of
           Inl e \<Rightarrow> s
         | Inr vals \<Rightarrow>
             (case execute snk (db s) Customers vals of
                (Raises, d) \<Rightarrow> s\<lparr>db := d\<rparr>
              | (result, d) \<Rightarrow>
                  (let s1 = (case result of
                               Row k \<Rightarrow> s\<lparr>db := d, key_map := (key_map s)(source_id \<mapsto> k),
                                           imported := imported s + 1\<rparr>
                             | _ \<Rightarrow> s\<lparr>db := d\<rparr>)
                   in if imported s1 mod 1000 = 0
                      then s1\<lparr>db := snd (commit snk (db s1))\<rparr>
                      else s1))))"

definition load_init :: "'db \<Rightarrow> ('k, 'db) load_state" where
  "load_init d = \<lparr>db = d, key_map = Map.empty, imported = 0\<rparr>"

text \<open>The final \<^verbatim>\<open>self.conn.commit()\<close> is outside the handler.\<close>

definition final_commit ::
  "'db sink \<Rightarrow> ('db, 'm) conn_state_scheme \<Rightarrow> exn + ('db, 'm) conn_state_scheme" where
  "final_commit snk s =
     (case commit snk (db s) of (True, d) \<Rightarrow> Inr (s\<lparr>db := d\<rparr>) | (False, d) \<Rightarrow> Inl DbError)"

definition import_customers :: "builtins \<Rightarrow> 'db sink \<Rightarrow> frame \<Rightarrow> 'db \<Rightarrow> exn + (int, 'db) load_state" where
  "import_customers py snk df d =
     final_commit snk (fold (customers_step py snk) (customers_unique df) (load_init d))"

section \<open>Product loader\<close>

definition product_cols :: "string list" where
  "product_cols =
     [''Product Name'', ''Product Card Id'', ''Category Name'', ''Department Name'',
      ''Product Price'', ''Product Description'', ''Product Image'', ''Product Status'']"

text \<open>\<^verbatim>\<open>astype(str)\<close> on the name column: a missing name becomes the text \<^verbatim>\<open>nan\<close>.\<close>

definition astype_str :: "string option \<Rightarrow> string" where
  "astype_str n = (case n of None \<Rightarrow> ''nan'' | Some s \<Rightarrow> s)"

text \<open>
  The rows kept for the catalogue, each as its trimmed name and its product columns.
  (The first test of the source, \<^verbatim>\<open>notna()\<close>, holds of every text.)
\<close>

definition products :: "frame \<Rightarrow> (string \<times> (string \<rightharpoonup> scalar)) list" where
  "products df =
     filter (\<lambda>x. fst x \<noteq> ''nan'' \<and> fst x \<noteq> '''')
       (map (\<lambda>r. (strip (astype_str (Product_Name r)), cells r |` set product_cols)) df)"

definition products_unique :: "frame \<Rightarrow> (string \<times> (string \<rightharpoonup> scalar)) list" where
  "products_unique df = groupby_first (na_value df) (products df)"

definition product_values :: "builtins \<Rightarrow> string \<Rightarrow> (string \<rightharpoonup> scalar) \<Rightarrow> exn + sqlval list" where
  "product_values py product_name row =
     bindE (clean_int py (get row ''Product Card Id'')) (\<lambda>card_id.
     bindE (clean_numeric py (get row ''Product Price'')) (\<lambda>price.
     bindE (clean_int py (get row ''Product Status'')) (\<lambda>status.
     Inr [Text product_name, integer_or_null card_id,
          text_or_null py row ''Category Name'',
          text_or_null py row ''Department Name'',
          double_or_null price,
          text_or_null py row ''Product Description'',
          text_or_null py row ''Product Image'',
          integer_or_null status])))"

definition products_step ::
  "builtins \<Rightarrow> 'db sink \<Rightarrow> string \<times> (string \<rightharpoonup> scalar) \<Rightarrow> (string, 'db) load_state \<Rightarrow> (string, 'db) load_state" where
  "products_step py snk x s =
     (case x of (name, row) \<Rightarrow>
        (let product_name = strip name
         in case product_values py product_name row of
              Inl e \<Rightarrow> s
            | Inr vals \<Rightarrow>
                (case execute snk (db s) Products vals of
                   (Row k, d) \<Rightarrow> s\<lparr>db := d, key_map := (key_map s)(product_name \<mapsto> k),
                                  imported := imported s + 1\<rparr>
                 | (_, d) \<Rightarrow> s\<lparr>db := d\<rparr>)))"

definition import_products :: "builtins \<Rightarrow> 'db sink \<Rightarrow> frame \<Rightarrow> 'db \<Rightarrow> exn + (string, 'db) load_state" where
  "import_products py snk df d =
     final_commit snk (fold (products_step py snk) (products_unique df) (load_init d))"

section \<open>Order loader\<close>

text \<open>
  The state of a pass over the whole frame: the connection, the counter of successes and,
  for the statements below, the calls of \<^verbatim>\<open>cursor.execute\<close> so far, each with the
  position of the row it was made for, the values sent and the answer.
\<close>

record 'db pass_state = "'db conn_state" +
  processed :: nat
  sent :: "(nat \<times> sqlval list \<times> outcome) list"

datatype lookup = Customer_get "int option" | Product_get "string option"

record 'db orders_state = "'db pass_state" +
  order_map :: "nat \<rightharpoonup> int"
  skipped_no_customer :: nat
  skipped_no_product :: nat
  skipped_error :: nat
  lookups :: "(nat \<times> lookup) list"

definition orders_init :: "'db \<Rightarrow> 'db orders_state" where
  "orders_init d =
     \<lparr>db = d, processed = 0, sent = [], order_map = Map.empty, skipped_no_customer = 0,
      skipped_no_product = 0, skipped_error = 0, lookups = []\<rparr>"

text \<open>\<^verbatim>\<open>customer_map.get(source_customer_id)\<close> and \<^verbatim>\<open>product_map.get(product_name)\<close>:
  the maps have no entry for \<^verbatim>\<open>None\<close>.\<close>

definition map_get :: "('k \<rightharpoonup> int) \<Rightarrow> 'k option \<Rightarrow> int option" where
  "map_get m k = (case k of None \<Rightarrow> None | Some x \<Rightarrow> m x)"

text \<open>The sixteen values of the insert into \<^verbatim>\<open>orders\<close>, evaluated left to right.\<close>

definition order_values :: "builtins \<Rightarrow> int \<Rightarrow> int \<Rightarrow> (string \<rightharpoonup> scalar) \<Rightarrow> exn + sqlval list" where
  "order_values py customer_id product_id row =
     bindE (clean_int py (get row ''Order Item Id'')) (\<lambda>item_id.
     bindE (clean_int py (get row ''Order Item Quantity'')) (\<lambda>quantity.
     bindE (clean_numeric py (get row ''Sales per customer'')) (\<lambda>sales.
     bindE (clean_numeric py (get row ''Order Item Discount'')) (\<lambda>discount.
     bindE (clean_numeric py (get row ''Order Profit Per Order'')) (\<lambda>profit.
     Inr [integer_or_null item_id, Integer customer_id, Integer product_id,
          text_or_null py row ''order date (DateOrders)'',
          text_or_null py row ''order date (DateOrders)'',
          integer_or_null quantity, double_or_null sales, double_or_null discount,
          double_or_null profit,
          text_or_null py row ''Order Status'',
          text_or_null py row ''Market'',
          text_or_null py row ''Order Region'',
          text_or_null py row ''Order Country'',
          text_or_null py row ''Order City'',
          text_or_null py row ''Order State'',
          text_or_null py row ''Order Zipcode''])))))"

text \<open>\<^verbatim>\<open>processed % self.config['batch_size'] == 0\<close>.\<close>

definition batch_due :: "int \<Rightarrow> nat \<Rightarrow> exn + bool" where
  "batch_due batch_size n =
     (if batch_size = 0 then Inl ZeroDivisionError else Inr (int n mod batch_size = 0))"

text \<open>
  One turn of the loop of \<^verbatim>\<open>import_orders\<close>. Both maps are read first, then the two
  results are tested in turn. The handler is \<^verbatim>\<open>except psycopg2.Error\<close>: it covers the
  insert and the commit of a batch, and nothing else that the body raises.
\<close>

definition orders_step ::
  "builtins \<Rightarrow> 'db sink \<Rightarrow> int \<Rightarrow> (int \<rightharpoonup> int) \<Rightarrow> (string \<rightharpoonup> int) \<Rightarrow> nat \<times> raw_row \<Rightarrow>
   'db orders_state \<Rightarrow> exn + 'db orders_state" where
  "orders_step py snk batch_size customer_map product_map x s0 =
     (case x of (idx, row) \<Rightarrow>
        (let source_customer_id = Customer_Id row;
             product_name = map_option strip (Product_Name row);
             customer_id = map_get customer_map source_customer_id;
             product_id = map_get product_map product_name;
             s = s0\<lparr>lookups := lookups s0 @
                       [(idx, Customer_get source_customer_id), (idx, Product_get product_name)]\<rparr>
         in if \<not> truthy customer_id then Inr (s\<lparr>skipped_no_customer := skipped_no_customer s + 1\<rparr>)
            else if \<not> truthy product_id then Inr (s\<lparr>skipped_no_product := skipped_no_product s + 1\<rparr>)
            else
              bindE (order_values py (the customer_id) (the product_id) (cells row)) (\<lambda>vals.
                case execute snk (db s) Orders vals of
                  (Raises, d) \<Rightarrow>
                    Inr (s\<lparr>db := d, sent := sent s @ [(idx, vals, Raises)],
                           skipped_error := skipped_error s + 1\<rparr>)
                | (result, d) \<Rightarrow>
                    (let s1 = (case result of
                                 Row k \<Rightarrow> s\<lparr>processed := processed s + 1,
                                             order_map := (order_map s)(idx \<mapsto> k)\<rparr>
                               | _ \<Rightarrow> s);
                         s2 = s1\<lparr>db := d, sent := sent s @ [(idx, vals, result)]\<rparr>
                     in bindE (batch_due batch_size (processed s2)) (\<lambda>due.
                          if due
                          then (case commit snk (db s2) of
                                  (True, d') \<Rightarrow> Inr (s2\<lparr>db := d'\<rparr>)
                                | (False, d') \<Rightarrow>
                                    Inr (s2\<lparr>db := d', skipped_error := skipped_error s2 + 1\<rparr>))
                          else Inr s2)))))"

text \<open>A loop whose body may raise past its handler stops at the first such row.\<close>

fun run_rows :: "('x \<Rightarrow> 's \<Rightarrow> exn + 's) \<Rightarrow> 'x list \<Rightarrow> 's \<Rightarrow> exn + 's" where
  "run_rows step [] s = Inr s"
| "run_rows step (x # xs) s = (case step x s of Inl e \<Rightarrow> Inl e | Inr s' \<Rightarrow> run_rows step xs s')"

definition orders_loop ::
  "builtins \<Rightarrow> 'db sink \<Rightarrow> int \<Rightarrow> (int \<rightharpoonup> int) \<Rightarrow> (string \<rightharpoonup> int) \<Rightarrow> (nat \<times> raw_row) list \<Rightarrow>
   'db \<Rightarrow> exn + 'db orders_state" where
  "orders_loop py snk batch_size customer_map product_map rows d =
     run_rows (orders_step py snk batch_size customer_map product_map) rows (orders_init d)"

definition import_orders ::
  "builtins \<Rightarrow> 'db sink \<Rightarrow> int \<Rightarrow> (int \<rightharpoonup> int) \<Rightarrow> (string \<rightharpoonup> int) \<Rightarrow> frame \<Rightarrow> 'db \<Rightarrow>
   exn + 'db orders_state" where
  "import_orders py snk batch_size customer_map product_map df d =
     bindE (orders_loop py snk batch_size customer_map product_map (enumerate 0 df) d)
       (final_commit snk)"

section \<open>Shipping loader\<close>

record 'db shipping_state = "'db pass_state" +
  skipped :: nat

definition shipping_init :: "'db \<Rightarrow> 'db shipping_state" where
  "shipping_init d = \<lparr>db = d, processed = 0, sent = [], skipped = 0\<rparr>"

text \<open>The seven values of the insert into \<^verbatim>\<open>shipping_details\<close>.\<close>

definition shipping_values :: "builtins \<Rightarrow> int \<Rightarrow> (string \<rightharpoonup> scalar) \<Rightarrow> exn + sqlval list" where
  "shipping_values py order_id row =
     bindE (clean_int py (get row ''Days for shipping (real)'')) (\<lambda>days_real.
     bindE (clean_int py (get row ''Days for shipment (scheduled)'')) (\<lambda>days_scheduled.
     bindE (clean_int py (get row ''Late_delivery_risk'')) (\<lambda>late_risk.
     Inr [Integer order_id,
          text_or_null py row ''shipping date (DateOrders)'',
          text_or_null py row ''Shipping Mode'',
          integer_or_null days_real, integer_or_null days_scheduled,
          text_or_null py row ''Delivery Status'',
          integer_or_null late_risk])))"

definition shipping_step ::
  "builtins \<Rightarrow> 'db sink \<Rightarrow> int \<Rightarrow> (nat \<rightharpoonup> int) \<Rightarrow> nat \<times> raw_row \<Rightarrow>
   'db shipping_state \<Rightarrow> exn + 'db shipping_state" where
  "shipping_step py snk batch_size order_map' x s =
     (case x of (idx, row) \<Rightarrow>
        (let order_id = order_map' idx
         in if \<not> truthy order_id then Inr (s\<lparr>skipped := skipped s + 1\<rparr>)
            else
              bindE (shipping_values py (the order_id) (cells row)) (\<lambda>vals.
                case execute snk (db s) Shipping_details vals of
                  (Raises, d) \<Rightarrow>
                    Inr (s\<lparr>db := d, sent := sent s @ [(idx, vals, Raises)],
                           skipped := skipped s + 1\<rparr>)
                | (result, d) \<Rightarrow>
                    (let s2 = s\<lparr>db := d, processed := processed s + 1,
                                 sent := sent s @ [(idx, vals, result)]\<rparr>
                     in bindE (batch_due batch_size (processed s2)) (\<lambda>due.
                          if due
                          then (case commit snk (db s2) of
                                  (True, d') \<Rightarrow> Inr (s2\<lparr>db := d'\<rparr>)
                                | (False, d') \<Rightarrow> Inr (s2\<lparr>db := d', skipped := skipped s2 + 1\<rparr>))
                          else Inr s2)))))"

definition shipping_loop ::
  "builtins \<Rightarrow> 'db sink \<Rightarrow> int \<Rightarrow> (nat \<rightharpoonup> int) \<Rightarrow> (nat \<times> raw_row) list \<Rightarrow> 'db \<Rightarrow>
   exn + 'db shipping_state" where
  "shipping_loop py snk batch_size order_map' rows d =
     run_rows (shipping_step py snk batch_size order_map') rows (shipping_init d)"

definition import_shipping ::
  "builtins \<Rightarrow> 'db sink \<Rightarrow> int \<Rightarrow> (nat \<rightharpoonup> int) \<Rightarrow> frame \<Rightarrow> 'db \<Rightarrow> exn + 'db shipping_state" where
  "import_shipping py snk batch_size order_map' df d =
     bindE (shipping_loop py snk batch_size order_map' (enumerate 0 df) d) (final_commit snk)"

section \<open>Notions used in the statements\<close>

text \<open>The two lookups of a row of the order pass, and their record in \<open>lookups\<close>.\<close>

abbreviation customer_lookup :: "(int \<rightharpoonup> int) \<Rightarrow> raw_row \<Rightarrow> int option" where
  "customer_lookup cm row \<equiv> map_get cm (Customer_Id row)"

abbreviation product_lookup :: "(string \<rightharpoonup> int) \<Rightarrow> raw_row \<Rightarrow> int option" where
  "product_lookup pm row \<equiv> map_get pm (map_option strip (Product_Name row))"

abbreviation row_lookups :: "nat \<Rightarrow> raw_row \<Rightarrow> (nat \<times> lookup) list" where
  "row_lookups idx row \<equiv>
     [(idx, Customer_get (Customer_Id row)), (idx, Product_get (map_option strip (Product_Name row)))]"

text \<open>The rows that the tallies and the key map of the order pass account for.\<close>

definition orders_accounted :: "'db orders_state \<Rightarrow> nat" where
  "orders_accounted s =
     skipped_no_customer s + skipped_no_product s + skipped_error s + card (dom (order_map s))"

text \<open>A key map with its entries for the key 0 taken out.\<close>

definition without_zero_keys :: "('k \<rightharpoonup> int) \<Rightarrow> ('k \<rightharpoonup> int)" where
  "without_zero_keys m = (\<lambda>k. if m k = Some 0 then None else m k)"

text \<open>A product name that is missing, blank once trimmed, or the text \<^verbatim>\<open>nan\<close>.\<close>

definition unusable_name :: "string option \<Rightarrow> bool" where
  "unusable_name n = (case n of None \<Rightarrow> True | Some s \<Rightarrow> strip s = '''' \<or> strip s = ''nan'')"

subsection \<open>Collaborators and rows of the examples\<close>

text \<open>
  The examples need the two builtins only at a few arguments: \<^verbatim>\<open>float('5.0')\<close>,
  \<^verbatim>\<open>float('2')\<close>, \<^verbatim>\<open>float('abc')\<close> and \<^verbatim>\<open>str\<close> of a float with an integral value.
\<close>

definition example_builtins :: builtins where
  "example_builtins =
     \<lparr>float_of_str = [''5.0'' \<mapsto> Finite 5, ''2'' \<mapsto> Finite 2],
      repr_float = (\<lambda>q. str_int \<lfloor>q\<rfloor> @ ''.0'')\<rparr>"

text \<open>
  A sink that numbers its rows 1, 2, 3, ... and refuses a row whose first value is
  null; its commits succeed.
\<close>

definition serial_sink :: "nat sink" where
  "serial_sink =
     \<lparr>execute = (\<lambda>n t vals. case vals of Null # _ \<Rightarrow> (Raises, n) | _ \<Rightarrow> (Row (int n + 1), Suc n)),
      commit = (\<lambda>n. (True, n))\<rparr>"

text \<open>A sink that answers from a script: the answers to the inserts, and to the commits.\<close>

definition scripted_sink :: "(outcome list \<times> bool list) sink" where
  "scripted_sink =
     \<lparr>execute = (\<lambda>d t vals. case fst d of [] \<Rightarrow> (Raises, d) | out # outs \<Rightarrow> (out, (outs, snd d))),
      commit = (\<lambda>d. case snd d of [] \<Rightarrow> (True, d) | ok # oks \<Rightarrow> (ok, (fst d, oks)))\<rparr>"

definition example_row :: "int option \<Rightarrow> string option \<Rightarrow> scalar \<Rightarrow> raw_row" where
  "example_row c p email =
     \<lparr>Customer_Id = c, Product_Name = p,
      cells = [''Customer Email'' \<mapsto> email, ''Customer Fname'' \<mapsto> PyStr ''Ann'',
               ''Order Item Id'' \<mapsto> PyInt 10, ''Order Item Quantity'' \<mapsto> PyStr ''2'',
               ''Late_delivery_risk'' \<mapsto> PyStr ''5.0'']\<rparr>"

definition widget_row :: "int \<Rightarrow> raw_row" where
  "widget_row c = example_row (Some c) (Some ''Widget'') (PyStr ''ann@example.com'')"

definition customer_row :: "int \<Rightarrow> scalar \<Rightarrow> scalar \<Rightarrow> raw_row" where
  "customer_row c email fname =
     \<lparr>Customer_Id = Some c, Product_Name = Some ''Widget'',
      cells = [''Customer Email'' \<mapsto> email, ''Customer Fname'' \<mapsto> fname]\<rparr>"

text \<open>Customer 1 twice, first without an email, then with one and another first name.\<close>

definition duplicated_customer :: frame where
  "duplicated_customer =
     [customer_row 1 (PyFloat NaN) (PyStr ''Ann''),
      customer_row 2 (PyStr ''eve@example.com'') (PyStr ''Eve''),
      customer_row 1 (PyStr ''bob@example.com'') (PyStr ''Bob'')]"

section \<open>The loops\<close>

lemma run_rows_snoc:
  "run_rows step (xs @ [x]) s = (case run_rows step xs s of Inl e \<Rightarrow> Inl e | Inr t \<Rightarrow> step x t)"
  by (induction xs arbitrary: s) (auto split: sum.splits)

lemma run_rows_invariant:
  assumes "run_rows step xs s = Inr t" and "P s"
      and "\<And>x u u'. x \<in> set xs \<Longrightarrow> P u \<Longrightarrow> step x u = Inr u' \<Longrightarrow> P u'"
  shows "P t"
  using assms
proof (induction xs arbitrary: s)
  case Nil
  then show ?case by simp
next
  case (Cons x xs)
  from Cons.prems(1) obtain u where u: "step x s = Inr u" and r: "run_rows step xs u = Inr t"
    by (auto split: sum.splits)
  have "P u" using Cons.prems(3)[of x s u] Cons.prems(2) u by simp
  show ?case
  proof (rule Cons.IH[OF r \<open>P u\<close>])
    fix y v v'
    assume "y \<in> set xs" "P v" "step y v = Inr v'"
    then show "P v'" using Cons.prems(3)[of y v v'] by simp
  qed
qed

lemma enumerate_snoc: "enumerate n (xs @ [x]) = enumerate n xs @ [(n + length xs, x)]"
  by (simp add: enumerate_append_eq)

lemma take_enumerate: "take n (enumerate m xs) = enumerate m (take n xs)"
  by (induction xs arbitrary: n m) (auto simp: take_Cons split: nat.splits)

lemma final_commit_Inr:
  assumes "final_commit snk t = Inr s"
  shows "s = t\<lparr>db := snd (commit snk (db t))\<rparr>"
  using assms by (auto simp: final_commit_def split: prod.splits bool.splits)

section \<open>The order pass\<close>

lemma orders_step_lookups:
  assumes "orders_step py snk b cm pm (idx, row) s = Inr s'"
  shows "lookups s' = lookups s @ row_lookups idx row"
  using assms
  by (auto simp: orders_step_def Let_def bindE_def batch_due_def
      split: if_splits sum.splits prod.splits outcome.splits bool.splits)

lemma orders_step_skip_customer:
  "\<not> truthy (customer_lookup cm row) \<Longrightarrow>
   orders_step py snk b cm pm (idx, row) s =
     Inr (s\<lparr>lookups := lookups s @ row_lookups idx row,
            skipped_no_customer := skipped_no_customer s + 1\<rparr>)"
  by (simp add: orders_step_def Let_def)

lemma orders_step_skip_product:
  "truthy (customer_lookup cm row) \<Longrightarrow> \<not> truthy (product_lookup pm row) \<Longrightarrow>
   orders_step py snk b cm pm (idx, row) s =
     Inr (s\<lparr>lookups := lookups s @ row_lookups idx row,
            skipped_no_product := skipped_no_product s + 1\<rparr>)"
  by (simp add: orders_step_def Let_def)

lemma orders_step_insert:
  assumes "orders_step py snk b cm pm (idx, row) s = Inr s'"
      and "truthy (customer_lookup cm row)" and "truthy (product_lookup pm row)"
  shows "\<exists>vals out.
           order_values py (the (customer_lookup cm row)) (the (product_lookup pm row)) (cells row) = Inr vals \<and>
           out = fst (execute snk (db s) Orders vals) \<and>
           sent s' = sent s @ [(idx, vals, out)] \<and>
           order_map s' = (case out of Row k \<Rightarrow> (order_map s)(idx \<mapsto> k) | _ \<Rightarrow> order_map s) \<and>
           processed s' = (case out of Row k \<Rightarrow> processed s + 1 | _ \<Rightarrow> processed s) \<and>
           skipped_no_customer s' = skipped_no_customer s \<and>
           skipped_no_product s' = skipped_no_product s \<and>
           skipped_error s \<le> skipped_error s' \<and> skipped_error s' \<le> skipped_error s + 1 \<and>
           (out = Raises \<longrightarrow> skipped_error s' = skipped_error s + 1)"
  using assms
  by (auto simp: orders_step_def Let_def bindE_def batch_due_def
      split: if_splits sum.splits prod.splits outcome.splits bool.splits)

lemma orders_step_insert_error:
  assumes "orders_step py snk b cm pm (idx, row) s = Inr s'"
      and "truthy (customer_lookup cm row)" and "truthy (product_lookup pm row)"
      and "\<And>d. fst (commit snk d)"
  shows "\<exists>vals. order_values py (the (customer_lookup cm row)) (the (product_lookup pm row)) (cells row) = Inr vals \<and>
           skipped_error s' =
             (if fst (execute snk (db s) Orders vals) = Raises then skipped_error s + 1 else skipped_error s)"
proof -
  have nc: "commit snk d \<noteq> (False, d')" for d d'
    using assms(4)[of d] by auto
  show ?thesis
    using assms(1-3)
    by (auto simp: nc orders_step_def Let_def bindE_def batch_due_def
        split: if_splits sum.splits prod.splits outcome.splits bool.splits)
qed

lemma orders_loop_induct [consumes 1, case_names init step]:
  assumes "orders_loop py snk b cm pm (enumerate 0 df) d = Inr s"
      and "P [] (orders_init d)"
      and "\<And>xs x t u. orders_loop py snk b cm pm (enumerate 0 xs) d = Inr t \<Longrightarrow> P xs t \<Longrightarrow>
             orders_step py snk b cm pm (length xs, x) t = Inr u \<Longrightarrow> P (xs @ [x]) u"
  shows "P df s"
  using assms(1)
proof (induction df arbitrary: s rule: rev_induct)
  case Nil
  then show ?case using assms(2) by (simp add: orders_loop_def)
next
  case (snoc x xs)
  then show ?case
    using assms(3)[of xs _ x s]
    by (auto simp: orders_loop_def enumerate_snoc run_rows_snoc split: sum.splits)
qed

lemma orders_loop_invariant:
  assumes "orders_loop py snk b cm pm (enumerate 0 df) d = Inr s"
  shows "dom (order_map s) \<subseteq> {..<length df} \<and> processed s = card (dom (order_map s)) \<and>
         (\<forall>x\<in>set (sent s). fst x < length df \<and> truthy (customer_lookup cm (df ! fst x)) \<and>
              truthy (product_lookup pm (df ! fst x))) \<and>
         (\<forall>i k. order_map s i = Some k \<longleftrightarrow> (\<exists>vals. (i, vals, Row k) \<in> set (sent s))) \<and>
         skipped_no_customer s + skipped_no_product s + length (sent s) = length df \<and>
         lookups s = concat (map (\<lambda>x. row_lookups (fst x) (snd x)) (enumerate 0 df))"
  using assms
proof (induction rule: orders_loop_induct)
  case init
  then show ?case by (simp add: orders_init_def)
next
  case (step xs x t u)
  let ?n = "length xs"
  have fresh: "?n \<notin> dom (order_map t)" and fin: "finite (dom (order_map t))"
    using step.IH by (auto intro: finite_subset[of _ "{..<length xs}"])
  have old: "\<And>y. y \<in> set (sent t) \<Longrightarrow> fst y < ?n" using step.IH by auto
  show ?case
  proof (cases "truthy (customer_lookup cm x)")
    case False
    from orders_step_skip_customer[OF this, of py snk b pm ?n t] step.hyps(2)
    have u: "u = t\<lparr>lookups := lookups t @ row_lookups ?n x,
                     skipped_no_customer := skipped_no_customer t + 1\<rparr>" by simp
    show ?thesis using step.IH by (auto simp: u nth_append enumerate_snoc)
  next
    case c: True
    show ?thesis
    proof (cases "truthy (product_lookup pm x)")
      case False
      from orders_step_skip_product[OF c this, of py snk b ?n t] step.hyps(2)
      have u: "u = t\<lparr>lookups := lookups t @ row_lookups ?n x,
                       skipped_no_product := skipped_no_product t + 1\<rparr>" by simp
      show ?thesis using step.IH by (auto simp: u nth_append enumerate_snoc)
    next
      case p: True
      from orders_step_insert[OF step.hyps(2) c p] obtain vals out where
        s: "sent u = sent t @ [(?n, vals, out)]"
        and m: "order_map u = (case out of Row k \<Rightarrow> (order_map t)(?n \<mapsto> k) | _ \<Rightarrow> order_map t)"
        and pr: "processed u = (case out of Row k \<Rightarrow> processed t + 1 | _ \<Rightarrow> processed t)"
        and nc: "skipped_no_customer u = skipped_no_customer t"
        and np: "skipped_no_product u = skipped_no_product t"
        by blast
      have l: "lookups u = lookups t @ row_lookups ?n x"
        using step.hyps(2) by (rule orders_step_lookups)
      have 1: "dom (order_map u) \<subseteq> {..<length (xs @ [x])}"
        using step.IH by (auto simp: m split: outcome.splits)
      have 2: "processed u = card (dom (order_map u))"
        using step.IH fresh fin by (auto simp: m pr split: outcome.splits)
      have 3: "\<forall>y\<in>set (sent u). fst y < length (xs @ [x]) \<and> truthy (customer_lookup cm ((xs @ [x]) ! fst y)) \<and>
              truthy (product_lookup pm ((xs @ [x]) ! fst y))"
        using step.IH c p by (auto simp: s nth_append)
      have 4: "\<forall>i k. order_map u i = Some k \<longleftrightarrow> (\<exists>vals. (i, vals, Row k) \<in> set (sent u))"
      proof (intro allI)
        fix i k
        show "order_map u i = Some k \<longleftrightarrow> (\<exists>vals. (i, vals, Row k) \<in> set (sent u))"
        proof (cases "i = ?n")
          case True
          have "order_map t ?n = None" using fresh by auto
          moreover have "\<not> (\<exists>v. (?n, v, Row k) \<in> set (sent t))" using old by fastforce
          ultimately show ?thesis using True by (auto simp: m s split: outcome.splits)
        next
          case False
          then show ?thesis using step.IH by (auto simp: m s split: outcome.splits)
        qed
      qed
      have 5: "skipped_no_customer u + skipped_no_product u + length (sent u) = length (xs @ [x])"
        using step.IH by (simp add: s nc np)
      have 6: "lookups u = concat (map (\<lambda>x. row_lookups (fst x) (snd x)) (enumerate 0 (xs @ [x])))"
        using step.IH by (simp add: l enumerate_snoc)
      from 1 2 3 4 5 6 show ?thesis by blast
    qed
  qed
qed

lemma import_orders_Inr:
  assumes "import_orders py snk b cm pm df d = Inr s"
  obtains t where "orders_loop py snk b cm pm (enumerate 0 df) d = Inr t"
    and "s = t\<lparr>db := snd (commit snk (db t))\<rparr>"
  using assms final_commit_Inr
  by (fastforce simp: import_orders_def bindE_def split: sum.splits)


subsection \<open>Evaluation of the examples\<close>

lemmas values_eval =
  order_values_def shipping_values_def customer_values_def product_values_def customer_email_def
  clean_int_def clean_numeric_def bindE_def get_def get_default_def text_or_null_def
  integer_or_null_def double_or_null_def pd_notna_def example_builtins_def example_row_def
  widget_row_def

lemmas orders_eval =
  import_orders_def orders_loop_def orders_step_def orders_init_def final_commit_def
  batch_due_def map_get_def truthy_def strip_def is_space_def Let_def
  serial_sink_def scripted_sink_def enumerate_eq_zip

text \<open>
  The example of the specification: customer map \<open>{1: 101}\<close>, product map
  \<open>{"Widget": 501}\<close>, a row of customer 1 and a row of customer 2, both for the
  product Widget. The first row gives the one order; the second is tallied under
  \<open>no_customer\<close>.
\<close>

lemma orders_example:
  "import_orders example_builtins serial_sink 1000 [1 \<mapsto> 101] [''Widget'' \<mapsto> 501]
     [widget_row 1, widget_row 2] 0 =
   Inr \<lparr>db = 1, processed = 1,
        sent = [(0, [Integer 10, Integer 101, Integer 501, Null, Null, Integer 2, Null, Null, Null,
                     Null, Null, Null, Null, Null, Null, Null], Row 1)],
        order_map = [0 \<mapsto> 1], skipped_no_customer = 1, skipped_no_product = 0, skipped_error = 0,
        lookups = [(0, Customer_get (Some 1)), (0, Product_get (Some ''Widget'')),
                   (1, Customer_get (Some 2)), (1, Product_get (Some ''Widget''))]\<rparr>"
  by (simp add: orders_eval values_eval)

section \<open>Claims on the order pass\<close>



text \<open>
  Four rows of the same pass: an order, a row of an unknown customer, a row of an unknown
  product, and a row that the sink refuses.
\<close>

lemma tallies_example:
  "import_orders example_builtins serial_sink 1000 [1 \<mapsto> 101] [''Widget'' \<mapsto> 501]
     [widget_row 1, widget_row 2, example_row (Some 1) (Some ''Gadget'') PyNone,
      example_row (Some 1) (Some '' Widget '') PyNone \<lparr>cells := Map.empty\<rparr>] 0 =
   Inr \<lparr>db = 1, processed = 1,
        sent = [(0, [Integer 10, Integer 101, Integer 501, Null, Null, Integer 2, Null, Null, Null,
                     Null, Null, Null, Null, Null, Null, Null], Row 1),
                (3, [Null, Integer 101, Integer 501, Null, Null, Null, Null, Null, Null,
                     Null, Null, Null, Null, Null, Null, Null], Raises)],
        order_map = [0 \<mapsto> 1], skipped_no_customer = 1, skipped_no_product = 1, skipped_error = 1,
        lookups = [(0, Customer_get (Some 1)), (0, Product_get (Some ''Widget'')),
                   (1, Customer_get (Some 2)), (1, Product_get (Some ''Widget'')),
                   (2, Customer_get (Some 1)), (2, Product_get (Some ''Gadget'')),
                   (3, Customer_get (Some 1)), (3, Product_get (Some ''Widget''))]\<rparr>"
  by (simp add: orders_eval values_eval)

text \<open>
  C3, as stated, fails: a row whose insert raises nothing and gives no row is counted
  nowhere. Here the sink answers the only insert with no row; the three tallies and the
  key map account for 0 rows of a frame of 1 row.
\<close>

theorem tallies_counterexample:
  "map_sum id orders_accounted
     (import_orders example_builtins scripted_sink 1000 [1 \<mapsto> 101] [''Widget'' \<mapsto> 501]
        [widget_row 1] ([NoRow], [])) = Inr 0 \<and>
   length [widget_row 1] = 1"
  by (simp add: orders_eval values_eval orders_accounted_def)

text \<open>
  C3, amended. When the sink gives a key for every insert of an order that does not
  raise, and no commit raises, then at the end of the pass
  \<open>skipped.no_customer + skipped.no_product + skipped.error + len(OrderKeyMap)\<close> is the
  number of rows of the source.
\<close>

theorem tallies_partition:
  assumes "import_orders py snk b cm pm df d = Inr s"
      and "\<And>d' vals. fst (execute snk d' Orders vals) \<noteq> NoRow"
      and "\<And>d'. fst (commit snk d')"
  shows "orders_accounted s = length df"
proof -
  from assms(1) obtain t where t: "orders_loop py snk b cm pm (enumerate 0 df) d = Inr t"
    and s: "s = t\<lparr>db := snd (commit snk (db t))\<rparr>"
    by (rule import_orders_Inr)
  have "skipped_no_customer t + skipped_no_product t + skipped_error t + processed t = length df"
    using t
  proof (induction rule: orders_loop_induct)
    case init
    then show ?case by (simp add: orders_init_def)
  next
    case (step xs x t u)
    show ?case
    proof (cases "truthy (customer_lookup cm x)")
      case False
      from orders_step_skip_customer[OF this, of py snk b pm "length xs" t] step.hyps(2)
      show ?thesis using step.IH by auto
    next
      case c: True
      show ?thesis
      proof (cases "truthy (product_lookup pm x)")
        case False
        from orders_step_skip_product[OF c this, of py snk b "length xs" t] step.hyps(2)
        show ?thesis using step.IH by auto
      next
        case p: True
        from orders_step_insert[OF step.hyps(2) c p] orders_step_insert_error[OF step.hyps(2) c p assms(3)]
        obtain vals where
          pr: "processed u = (case fst (execute snk (db t) Orders vals) of Row k \<Rightarrow> processed t + 1 | _ \<Rightarrow> processed t)"
          and nc: "skipped_no_customer u = skipped_no_customer t"
          and np: "skipped_no_product u = skipped_no_product t"
          and er: "skipped_error u =
             (if fst (execute snk (db t) Orders vals) = Raises then skipped_error t + 1 else skipped_error t)"
          by auto
        show ?thesis
          using step.IH assms(2)[of "db t" vals]
          by (cases "fst (execute snk (db t) Orders vals)") (simp_all add: pr nc np er)
      qed
    qed
  qed
  moreover have "processed t = card (dom (order_map t))"
    using orders_loop_invariant[OF t] by blast
  ultimately show ?thesis by (simp add: s orders_accounted_def)
qed

theorem tallies_partition_witness:
  "map_sum id orders_accounted
     (import_orders example_builtins serial_sink 1000 [1 \<mapsto> 101] [''Widget'' \<mapsto> 501]
        [widget_row 1, widget_row 2, example_row (Some 1) (Some ''Gadget'') PyNone,
         example_row (Some 1) (Some '' Widget '') PyNone \<lparr>cells := Map.empty\<rparr>] 0) =
   Inr (length [widget_row 1, widget_row 2, example_row (Some 1) (Some ''Gadget'') PyNone,
         example_row (Some 1) (Some '' Widget '') PyNone \<lparr>cells := Map.empty\<rparr>])"
proof -
  have 1: "fst (execute serial_sink d' Orders vals) \<noteq> NoRow" for d' vals
    by (simp add: serial_sink_def split: list.splits sqlval.splits)
  have 2: "fst (commit serial_sink d')" for d'
    by (simp add: serial_sink_def)
  show ?thesis using tallies_partition[OF tallies_example 1 2] tallies_example by simp
qed

text \<open>
  Why the amended statement asks that no commit raises: with a batch of one row and a
  commit that raises, the row is in the key map and is tallied under \<open>error\<close> as
  well, so one row is accounted for twice.
\<close>

lemma tallies_commit_example:
  "map_sum id (\<lambda>s. (skipped_error s, order_map s 0, orders_accounted s))
     (import_orders example_builtins scripted_sink 1 [1 \<mapsto> 101] [''Widget'' \<mapsto> 501]
        [widget_row 1] ([Row 9], [False])) = Inr (1, Some 9, 2)"
  by (simp add: orders_eval values_eval orders_accounted_def)

text \<open>
  C4, as stated, fails: the product map is read for every row, before the result of the
  customer lookup is tested. Here the customer lookup of the only row fails, and the
  record of the pass holds the lookup of its product.
\<close>

theorem product_lookup_counterexample:
  "customer_lookup [1 \<mapsto> 101] (widget_row 2) = None \<and>
   map_sum id lookups
     (import_orders example_builtins serial_sink 1000 [1 \<mapsto> 101] [''Widget'' \<mapsto> 501]
        [widget_row 2] 0) =
   Inr [(0, Customer_get (Some 2)), (0, Product_get (Some ''Widget''))]"
  by (simp add: orders_eval values_eval)

text \<open>
  C4, amended. Both maps are read for a row before either result is tested. A row whose
  customer lookup is false is tallied under \<open>no_customer\<close> and nothing else changes:
  no insert is made for it and \<open>no_product\<close> stays as it was. A row whose customer
  lookup is true and whose product lookup is false is tallied under \<open>no_product\<close>, and
  \<open>no_product\<close> changes for no other row.
\<close>

theorem customer_tested_first:
  "(\<not> truthy (customer_lookup cm row) \<longrightarrow>
      orders_step py snk b cm pm (idx, row) s =
        Inr (s\<lparr>lookups := lookups s @ row_lookups idx row,
               skipped_no_customer := skipped_no_customer s + 1\<rparr>)) \<and>
   (truthy (customer_lookup cm row) \<and> \<not> truthy (product_lookup pm row) \<longrightarrow>
      orders_step py snk b cm pm (idx, row) s =
        Inr (s\<lparr>lookups := lookups s @ row_lookups idx row,
               skipped_no_product := skipped_no_product s + 1\<rparr>)) \<and>
   (orders_step py snk b cm pm (idx, row) s = Inr s' \<and> skipped_no_product s' \<noteq> skipped_no_product s \<longrightarrow>
      truthy (customer_lookup cm row) \<and> \<not> truthy (product_lookup pm row))"
proof (intro conjI impI)
  assume "\<not> truthy (customer_lookup cm row)"
  then show "orders_step py snk b cm pm (idx, row) s =
        Inr (s\<lparr>lookups := lookups s @ row_lookups idx row,
               skipped_no_customer := skipped_no_customer s + 1\<rparr>)"
    by (rule orders_step_skip_customer)
next
  assume "truthy (customer_lookup cm row) \<and> \<not> truthy (product_lookup pm row)"
  then show "orders_step py snk b cm pm (idx, row) s =
        Inr (s\<lparr>lookups := lookups s @ row_lookups idx row,
               skipped_no_product := skipped_no_product s + 1\<rparr>)"
    by (simp add: orders_step_skip_product)
next
  assume a: "orders_step py snk b cm pm (idx, row) s = Inr s' \<and> skipped_no_product s' \<noteq> skipped_no_product s"
  show "truthy (customer_lookup cm row)"
  proof (rule ccontr)
    assume "\<not> truthy (customer_lookup cm row)"
    from orders_step_skip_customer[OF this, of py snk b pm idx s] a show False by auto
  qed
  then show "\<not> truthy (product_lookup pm row)"
    using orders_step_insert[of py snk b cm pm idx row s s'] a by auto
qed

theorem customer_tested_first_witness:
  "\<not> truthy (customer_lookup [1 \<mapsto> 101] (widget_row 2)) \<and>
   orders_step example_builtins serial_sink 1000 [1 \<mapsto> 101] [''Widget'' \<mapsto> 501] (0, widget_row 2) (orders_init 0) =
     Inr ((orders_init 0)\<lparr>lookups := [(0, Customer_get (Some 2)), (0, Product_get (Some ''Widget''))],
                          skipped_no_customer := 1\<rparr>) \<and>
   truthy (customer_lookup [1 \<mapsto> 101] (example_row (Some 1) (Some ''Gadget'') PyNone)) \<and>
   \<not> truthy (product_lookup [''Widget'' \<mapsto> 501] (example_row (Some 1) (Some ''Gadget'') PyNone)) \<and>
   orders_step example_builtins serial_sink 1000 [1 \<mapsto> 101] [''Widget'' \<mapsto> 501]
       (0, example_row (Some 1) (Some ''Gadget'') PyNone) (orders_init 0) =
     Inr ((orders_init 0)\<lparr>lookups := [(0, Customer_get (Some 1)), (0, Product_get (Some ''Gadget''))],
                          skipped_no_product := 1\<rparr>) \<and>
   skipped_no_product ((orders_init (0::nat))\<lparr>lookups := [(0, Customer_get (Some 1)), (0, Product_get (Some ''Gadget''))],
                          skipped_no_product := 1\<rparr>) \<noteq> skipped_no_product (orders_init (0::nat))"
  using customer_tested_first[of "[1 \<mapsto> 101]" "widget_row 2" example_builtins serial_sink 1000
          "[''Widget'' \<mapsto> 501]" 0 "orders_init 0"]
        customer_tested_first[of "[1 \<mapsto> 101]" "example_row (Some 1) (Some ''Gadget'') PyNone" example_builtins serial_sink 1000
          "[''Widget'' \<mapsto> 501]" 0 "orders_init 0"]
  by (simp add: truthy_def map_get_def widget_row_def example_row_def orders_init_def strip_def is_space_def)

section \<open>The shipping pass\<close>

lemmas shipping_eval =
  import_shipping_def shipping_loop_def shipping_step_def shipping_init_def final_commit_def
  batch_due_def truthy_def Let_def serial_sink_def scripted_sink_def enumerate_eq_zip

lemma shipping_step_skip:
  "\<not> truthy (om idx) \<Longrightarrow>
   shipping_step py snk b om (idx, row) s = Inr (s\<lparr>skipped := skipped s + 1\<rparr>)"
  by (simp add: shipping_step_def Let_def)

lemma shipping_values_head:
  "shipping_values py k row = Inr vals \<Longrightarrow> \<exists>rest. vals = Integer k # rest"
  by (auto simp: shipping_values_def bindE_def split: sum.splits)

lemma shipping_step_sent:
  assumes "shipping_step py snk b om (idx, row) s = Inr s'"
  shows "(\<not> truthy (om idx) \<and> sent s' = sent s \<and> skipped s' = skipped s + 1) \<or>
         (\<exists>k rest out. om idx = Some k \<and> k \<noteq> 0 \<and> sent s' = sent s @ [(idx, Integer k # rest, out)] \<and>
             skipped s \<le> skipped s')"
proof (cases "truthy (om idx)")
  case False
  then show ?thesis using assms by (auto simp: shipping_step_skip)
next
  case True
  then obtain k where k: "om idx = Some k" "k \<noteq> 0"
    by (auto simp: truthy_def split: option.splits)
  from assms True k obtain vals where v: "shipping_values py k (cells row) = Inr vals"
    by (auto simp: shipping_step_def Let_def bindE_def split: sum.splits)
  then obtain rest where r: "vals = Integer k # rest" using shipping_values_head by blast
  have "\<exists>out. sent s' = sent s @ [(idx, vals, out)] \<and> skipped s \<le> skipped s'"
    using assms True k v
    by (auto simp: shipping_step_def Let_def bindE_def batch_due_def
        split: if_splits sum.splits prod.splits outcome.splits bool.splits)
  with k r show ?thesis by auto
qed

lemma shipping_loop_sent:
  assumes "run_rows (shipping_step py snk b om) rows s0 = Inr s"
      and "\<forall>x\<in>set (sent s0). \<exists>k rest. om (fst x) = Some k \<and> k \<noteq> 0 \<and> fst (snd x) = Integer k # rest"
  shows "\<forall>x\<in>set (sent s). \<exists>k rest. om (fst x) = Some k \<and> k \<noteq> 0 \<and> fst (snd x) = Integer k # rest"
proof (rule run_rows_invariant[OF assms(1), where P = "\<lambda>s. \<forall>x\<in>set (sent s). \<exists>k rest. om (fst x) = Some k \<and> k \<noteq> 0 \<and> fst (snd x) = Integer k # rest"])
  show "\<forall>x\<in>set (sent s0). \<exists>k rest. om (fst x) = Some k \<and> k \<noteq> 0 \<and> fst (snd x) = Integer k # rest"
    by (rule assms(2))
next
  fix x u u'
  assume "x \<in> set rows"
    and u: "\<forall>x\<in>set (sent u). \<exists>k rest. om (fst x) = Some k \<and> k \<noteq> 0 \<and> fst (snd x) = Integer k # rest"
    and st: "shipping_step py snk b om x u = Inr u'"
  obtain idx row where x: "x = (idx, row)" by (cases x)
  show "\<forall>x\<in>set (sent u'). \<exists>k rest. om (fst x) = Some k \<and> k \<noteq> 0 \<and> fst (snd x) = Integer k # rest"
  proof
    fix y
    assume y: "y \<in> set (sent u')"
    from shipping_step_sent[OF st[unfolded x]]
    consider "sent u' = sent u"
      | k rest out where "om idx = Some k" "k \<noteq> 0" "sent u' = sent u @ [(idx, Integer k # rest, out)]"
      by blast
    then show "\<exists>k rest. om (fst y) = Some k \<and> k \<noteq> 0 \<and> fst (snd y) = Integer k # rest"
    proof cases
      case 1
      then show ?thesis using u y by simp
    next
      case 2
      then have "y \<in> set (sent u) \<or> y = (idx, Integer k # rest, out)" using y by auto
      then show ?thesis using u 2 by auto
    qed
  qed
qed

lemma shipping_loop_skipped:
  assumes "run_rows (shipping_step py snk b om) rows s0 = Inr s"
  shows "skipped s0 + length (filter (\<lambda>x. om (fst x) = None) rows) \<le> skipped s"
  using assms
proof (induction rows arbitrary: s0)
  case Nil
  then show ?case by simp
next
  case (Cons x rows)
  obtain idx row where x: "x = (idx, row)" by (cases x)
  from Cons.prems obtain u where u: "shipping_step py snk b om (idx, row) s0 = Inr u"
    and r: "run_rows (shipping_step py snk b om) rows u = Inr s"
    by (auto simp: x split: sum.splits)
  from shipping_step_sent[OF u] have "skipped s0 + (if om idx = None then 1 else 0) \<le> skipped u"
    by (auto simp: truthy_def)
  with Cons.IH[OF r] show ?case by (auto simp: x split: if_splits)
qed

lemma import_shipping_Inr:
  assumes "import_shipping py snk b om df d = Inr s"
  obtains t where "shipping_loop py snk b om (enumerate 0 df) d = Inr t"
    and "s = t\<lparr>db := snd (commit snk (db t))\<rparr>"
  using assms final_commit_Inr
  by (fastforce simp: import_shipping_def bindE_def split: sum.splits)

lemma shipping_example:
  "shipping_loop example_builtins serial_sink 1000 [0 \<mapsto> 1]
     (enumerate 0 [widget_row 1, widget_row 2]) 0 =
   Inr \<lparr>db = 1, processed = 1,
        sent = [(0, [Integer 1, Null, Null, Null, Null, Null, Integer 5], Row 1)],
        skipped = 1\<rparr>"
  by (simp add: shipping_eval values_eval)

section \<open>Keys that are 0\<close>

lemma truthy_without_zero_keys:
  "truthy (map_get (without_zero_keys m) k) = truthy (map_get m k)"
  by (auto simp: truthy_def map_get_def without_zero_keys_def split: option.splits)

lemma the_without_zero_keys:
  "truthy (map_get m k) \<Longrightarrow> map_get (without_zero_keys m) k = map_get m k"
  by (auto simp: truthy_def map_get_def without_zero_keys_def split: option.splits)

lemma orders_step_without_zero_keys:
  "orders_step py snk b (without_zero_keys cm) (without_zero_keys pm) x s = orders_step py snk b cm pm x s"
proof (cases x)
  case (Pair idx row)
  show ?thesis
  proof (cases "truthy (customer_lookup cm row) \<and> truthy (product_lookup pm row)")
    case True
    then show ?thesis
      by (simp add: Pair orders_step_def Let_def truthy_without_zero_keys the_without_zero_keys)
  next
    case False
    then show ?thesis
      by (auto simp: Pair orders_step_def Let_def truthy_without_zero_keys)
  qed
qed

lemma shipping_step_without_zero_keys:
  "shipping_step py snk b (without_zero_keys om) x s = shipping_step py snk b om x s"
proof (cases x)
  case (Pair idx row)
  have t: "truthy (without_zero_keys om idx) = truthy (om idx)"
    using truthy_without_zero_keys[of om "Some idx"] by (simp add: map_get_def)
  have e: "truthy (om idx) \<Longrightarrow> without_zero_keys om idx = om idx"
    using the_without_zero_keys[of om "Some idx"] by (simp add: map_get_def)
  show ?thesis
  proof (cases "truthy (om idx)")
    case True
    then show ?thesis by (simp add: Pair shipping_step_def Let_def t e)
  next
    case False
    then show ?thesis by (simp add: Pair shipping_step_def Let_def t)
  qed
qed

section \<open>Counters and key maps\<close>

lemma groupby_first_keys: "map fst (groupby_first na xs) = sort (remdups (map fst xs))"
  by (simp add: groupby_first_def comp_def)

lemma groupby_first_distinct: "distinct (map fst (groupby_first na xs))"
  by (simp add: groupby_first_keys)

lemma customers_step_counts:
  "(key_map (customers_step py snk x s) = key_map s \<and>
      imported (customers_step py snk x s) = imported s) \<or>
   (\<exists>k. key_map (customers_step py snk x s) = (key_map s)(fst x \<mapsto> k) \<and>
      imported (customers_step py snk x s) = imported s + 1)"
  by (cases x)
     (auto simp: customers_step_def Let_def split: sum.splits prod.splits outcome.splits)

lemma customers_fold_counts:
  assumes "distinct (map fst xs)" and "finite (dom (key_map s))"
      and "dom (key_map s) \<inter> fst ` set xs = {}" and "imported s = card (dom (key_map s))"
  shows "imported (fold (customers_step py snk) xs s) = card (dom (key_map (fold (customers_step py snk) xs s)))"
  using assms
proof (induction xs arbitrary: s)
  case Nil
  then show ?case by simp
next
  case (Cons x xs)
  define u where "u = customers_step py snk x s"
  have fresh: "key_map s (fst x) = None" using Cons.prems(3) by auto
  have d1: "fst x \<notin> fst ` set xs" and d0: "distinct (map fst xs)" using Cons.prems(1) by simp_all
  have d2: "dom (key_map s) \<inter> fst ` set xs = {}" using Cons.prems(3) by auto
  from customers_step_counts[of py snk x s]
  consider "key_map u = key_map s" "imported u = imported s"
    | k where "key_map u = (key_map s)(fst x \<mapsto> k)" "imported u = imported s + 1"
    unfolding u_def by blast
  then have "finite (dom (key_map u)) \<and> dom (key_map u) \<inter> fst ` set xs = {} \<and>
             imported u = card (dom (key_map u))"
  proof cases
    case 1
    then show ?thesis using Cons.prems(2,4) d2 by simp
  next
    case 2
    have "card (insert (fst x) (dom (key_map s))) = Suc (card (dom (key_map s)))"
      using Cons.prems(2) fresh by (simp add: card_insert_if domIff)
    then show ?thesis using 2 Cons.prems(2,4) d1 d2 by simp
  qed
  then have "imported (fold (customers_step py snk) xs u) =
             card (dom (key_map (fold (customers_step py snk) xs u)))"
    using Cons.IH[of u] d0 by simp
  then show ?case by (simp add: u_def)
qed

lemma customers_prefix_counts:
  "imported (fold (customers_step py snk) (take n (customers_unique df)) (load_init d)) =
   card (dom (key_map (fold (customers_step py snk) (take n (customers_unique df)) (load_init d))))"
proof -
  have "distinct (map fst (take n (customers_unique df)))"
    using groupby_first_distinct[of "na_value df" "customers df"]
    by (simp add: customers_unique_def take_map[symmetric] distinct_take)
  then show ?thesis
    using customers_fold_counts[of "take n (customers_unique df)" "load_init d" py snk]
    by (simp add: load_init_def)
qed

lemma orders_step_counts:
  assumes "orders_step py snk b cm pm (idx, row) s = Inr s'"
  shows "(order_map s' = order_map s \<and> processed s' = processed s) \<or>
         (\<exists>k. order_map s' = (order_map s)(idx \<mapsto> k) \<and> processed s' = processed s + 1)"
  using assms
  by (auto simp: orders_step_def Let_def bindE_def batch_due_def
      split: if_splits sum.splits prod.splits outcome.splits bool.splits)

subsection \<open>What decides that a position is in the order key map\<close>

text \<open>
  In terms of the sink alone: a position is in the order key map, with key \<open>k\<close>, when
  both lookups of its row are true (an entry that is not 0) and the sink, in the state
  that the rows before it have left, answers the insert of its values with \<open>k\<close>.
\<close>

lemma order_present_by_sink:
  assumes "orders_loop py snk b cm pm (enumerate 0 df) d = Inr s"
  shows "order_map s i = Some k \<longleftrightarrow>
           i < length df \<and> truthy (customer_lookup cm (df ! i)) \<and> truthy (product_lookup pm (df ! i)) \<and>
           (\<exists>t vals. orders_loop py snk b cm pm (enumerate 0 (take i df)) d = Inr t \<and>
              order_values py (the (customer_lookup cm (df ! i))) (the (product_lookup pm (df ! i)))
                (cells (df ! i)) = Inr vals \<and>
              fst (execute snk (db t) Orders vals) = Row k)"
  using assms
proof (induction arbitrary: i k rule: orders_loop_induct)
  case init
  then show ?case by (simp add: orders_init_def)
next
  case (step xs x t u)
  let ?n = "length xs"
  have "dom (order_map t) \<subseteq> {..<?n}"
    using orders_loop_invariant[OF step.hyps(1)] by blast
  then have "?n \<notin> dom (order_map t)" by auto
  then have none: "order_map t ?n = None" by (simp add: domIff)
  show ?case
  proof (cases "i < ?n")
    case True
    have "order_map u i = order_map t i"
      using orders_step_counts[OF step.hyps(2)] True by auto
    then show ?thesis using step.IH[of i k] True by (simp add: nth_append)
  next
    case False
    show ?thesis
    proof (cases "i = ?n")
      case n: True
      show ?thesis
      proof (cases "truthy (customer_lookup cm x) \<and> truthy (product_lookup pm x)")
        case True
        from orders_step_insert[OF step.hyps(2)] True obtain vals where
          v: "order_values py (the (customer_lookup cm x)) (the (product_lookup pm x)) (cells x) = Inr vals"
          and m: "order_map u = (case fst (execute snk (db t) Orders vals) of
                     Row k \<Rightarrow> (order_map t)(?n \<mapsto> k) | _ \<Rightarrow> order_map t)"
          by auto
        show ?thesis
          using True none step.hyps(1)
          by (cases "fst (execute snk (db t) Orders vals)") (auto simp: n m v)
      next
        case False
        then have "order_map u = order_map t"
          using orders_step_skip_customer[of cm x py snk b pm ?n t]
            orders_step_skip_product[of cm x pm py snk b ?n t] step.hyps(2)
          by (cases "truthy (customer_lookup cm x)") auto
        then show ?thesis using False none by (auto simp: n)
      qed
    next
      case far: False
      with False have "length (xs @ [x]) < i \<or> length (xs @ [x]) = i" by auto
      moreover have "dom (order_map u) \<subseteq> {..<length (xs @ [x])}"
      proof -
        have "orders_loop py snk b cm pm (enumerate 0 (xs @ [x])) d = Inr u"
          using step.hyps by (simp add: orders_loop_def enumerate_snoc run_rows_snoc)
        from orders_loop_invariant[OF this] show ?thesis by blast
      qed
      ultimately have "i \<notin> dom (order_map u)" by auto
      then have "order_map u i = None" by (simp add: domIff)
      then show ?thesis using False far by auto
    qed
  qed
qed

section \<open>Product names\<close>

lemma dropWhile_self: "xs = [] \<or> \<not> P (hd xs) \<Longrightarrow> dropWhile P xs = xs"
  by (cases xs) auto

lemma strip_strip: "strip (strip s) = strip s"
proof -
  define t where "t = dropWhile is_space s"
  define u where "u = rev (dropWhile is_space (rev t))"
  have su: "strip s = u" by (simp add: strip_def t_def u_def)
  have tu: "t = u @ rev (takeWhile is_space (rev t))"
    unfolding u_def by (metis rev_append rev_rev_ident takeWhile_dropWhile_id)
  have 1: "dropWhile is_space u = u"
  proof (cases "u = []")
    case True
    then show ?thesis by simp
  next
    case False
    then have "hd u = hd t" using tu by (metis hd_append2)
    moreover have "t \<noteq> []" using tu False by auto
    then have "\<not> is_space (hd t)" unfolding t_def by (rule hd_dropWhile)
    ultimately show ?thesis using False by (simp add: dropWhile_self)
  qed
  have 2: "dropWhile is_space (rev u) = rev u" by (simp add: u_def)
  show ?thesis unfolding su by (simp add: strip_def 1 2)
qed

lemma strip_nan: "strip ''nan'' = ''nan''"
  by (simp add: strip_def is_space_def)

lemma products_usable:
  "(strip (astype_str n) \<noteq> ''nan'' \<and> strip (astype_str n) \<noteq> []) = (\<not> unusable_name n)"
  by (auto simp: unusable_name_def astype_str_def strip_nan split: option.splits)

lemma products_filter: "products df = products (filter (\<lambda>r. \<not> unusable_name (Product_Name r)) df)"
  by (induction df) (auto simp: products_def products_usable)

lemma products_keys:
  assumes "x \<in> set (products df)"
  shows "fst x \<noteq> ''nan'' \<and> fst x \<noteq> [] \<and> strip (fst x) = fst x"
  using assms by (auto simp: products_def strip_strip)

lemma products_no_bad_key: "[] \<notin> fst ` set (products df)" "''nan'' \<notin> fst ` set (products df)"
proof -
  show "[] \<notin> fst ` set (products df)"
  proof
    assume "[] \<in> fst ` set (products df)"
    then obtain x where "x \<in> set (products df)" "fst x = []" by force
    then show False using products_keys[of x df] by simp
  qed
  show "''nan'' \<notin> fst ` set (products df)"
  proof
    assume "''nan'' \<in> fst ` set (products df)"
    then obtain x where "x \<in> set (products df)" "fst x = ''nan''" by force
    then show False using products_keys[of x df] by simp
  qed
qed

lemma products_unique_keys: "fst ` set (products_unique df) = fst ` set (products df)"
proof -
  have "set (map fst (products_unique df)) = set (map fst (products df))"
    by (simp add: products_unique_def groupby_first_keys)
  then show ?thesis by simp
qed

lemma products_step_map:
  "key_map (products_step py snk x s) = key_map s \<or>
   (\<exists>k. key_map (products_step py snk x s) = (key_map s)(strip (fst x) \<mapsto> k))"
  by (cases x)
     (auto simp: products_step_def Let_def split: sum.splits prod.splits outcome.splits)

lemma products_fold_dom:
  "dom (key_map (fold (products_step py snk) xs s)) \<subseteq> dom (key_map s) \<union> strip ` fst ` set xs"
proof (induction xs arbitrary: s)
  case Nil
  then show ?case by simp
next
  case (Cons x xs)
  define u where "u = products_step py snk x s"
  have "dom (key_map u) \<subseteq> insert (strip (fst x)) (dom (key_map s))"
    using products_step_map[of py snk x s] unfolding u_def by auto
  moreover have "dom (key_map (fold (products_step py snk) xs u)) \<subseteq> dom (key_map u) \<union> strip ` fst ` set xs"
    by (rule Cons.IH)
  ultimately have "dom (key_map (fold (products_step py snk) xs u)) \<subseteq>
      insert (strip (fst x)) (dom (key_map s)) \<union> strip ` fst ` set xs"
    by (rule_tac subset_trans) auto
  then show ?case by (simp add: u_def)
qed

lemma import_products_dom:
  assumes "import_products py snk df d = Inr ps"
  shows "dom (key_map ps) \<subseteq> fst ` set (products df)"
proof -
  let ?t = "fold (products_step py snk) (products_unique df) (load_init d)"
  from assms have "ps = ?t\<lparr>db := snd (commit snk (db ?t))\<rparr>"
    by (simp add: import_products_def final_commit_Inr)
  then have "dom (key_map ps) = dom (key_map ?t)" by simp
  also have "\<dots> \<subseteq> strip ` fst ` set (products_unique df)"
    using products_fold_dom[of py snk "products_unique df" "load_init d"] by (simp add: load_init_def)
  also have "\<dots> = strip ` fst ` set (products df)" by (simp add: products_unique_keys)
  also have "\<dots> \<subseteq> fst ` set (products df)" using products_keys by force
  finally show ?thesis .
qed

lemma unusable_not_a_key:
  assumes "import_products py snk df d = Inr ps" and "unusable_name (Product_Name r)"
  shows "product_lookup (key_map ps) r = None"
proof -
  have "[] \<notin> dom (key_map ps)" "''nan'' \<notin> dom (key_map ps)"
    using import_products_dom[OF assms(1)] products_no_bad_key[of df] by blast+
  then show ?thesis
    using assms(2) by (auto simp: unusable_name_def map_get_def domIff split: option.splits)
qed

section \<open>Examples of the loaders\<close>

lemmas dedup_eval =
  customers_unique_def customers_def products_unique_def products_def groupby_first_def
  group_first_def first_valid_def na_value_def object_col_def List.map_filter_def
  customer_cols_def product_cols_def restrict_map_def astype_str_def strip_def is_space_def

lemmas load_eval =
  import_customers_def customers_step_def import_products_def products_step_def load_init_def
  final_commit_def Let_def serial_sink_def scripted_sink_def

lemma customers_example:
  "import_customers example_builtins serial_sink [widget_row 1, widget_row 2, widget_row 1] 0 =
   Inr \<lparr>db = 2, key_map = [1 \<mapsto> 1, 2 \<mapsto> 2], imported = 2\<rparr>"
  by (simp add: load_eval dedup_eval values_eval)

lemma products_example:
  "import_products example_builtins serial_sink
     [widget_row 1, example_row (Some 1) None PyNone, example_row (Some 1) (Some ''  '') PyNone,
      example_row (Some 1) (Some '' nan '') PyNone] 0 =
   Inr \<lparr>db = 1, key_map = [''Widget'' \<mapsto> 1], imported = 1\<rparr>"
  by (simp add: load_eval dedup_eval values_eval)

lemma orders_after_products_example:
  "import_orders example_builtins serial_sink 1000 [1 \<mapsto> 101] [''Widget'' \<mapsto> 1]
     [widget_row 1, example_row (Some 1) None PyNone, example_row (Some 1) (Some ''  '') PyNone,
      example_row (Some 1) (Some '' nan '') PyNone] 0 =
   Inr \<lparr>db = 1, processed = 1,
        sent = [(0, [Integer 10, Integer 101, Integer 1, Null, Null, Integer 2, Null, Null, Null,
                     Null, Null, Null, Null, Null, Null, Null], Row 1)],
        order_map = [0 \<mapsto> 1], skipped_no_customer = 0, skipped_no_product = 3, skipped_error = 0,
        lookups = [(0, Customer_get (Some 1)), (0, Product_get (Some ''Widget'')),
                   (1, Customer_get (Some 1)), (1, Product_get None),
                   (2, Customer_get (Some 1)), (2, Product_get (Some [])),
                   (3, Customer_get (Some 1)), (3, Product_get (Some ''nan''))]\<rparr>"
  by (simp add: orders_eval values_eval)

lemma orders_prefix_example:
  "orders_loop example_builtins serial_sink 1000 [1 \<mapsto> 101] [''Widget'' \<mapsto> 501]
     (take 1 (enumerate 0 [widget_row 1, widget_row 2])) 0 =
   Inr \<lparr>db = 1, processed = 1,
        sent = [(0, [Integer 10, Integer 101, Integer 501, Null, Null, Integer 2, Null, Null, Null,
                     Null, Null, Null, Null, Null, Null, Null], Row 1)],
        order_map = [0 \<mapsto> 1], skipped_no_customer = 0, skipped_no_product = 0, skipped_error = 0,
        lookups = [(0, Customer_get (Some 1)), (0, Product_get (Some ''Widget''))]\<rparr>"
  by (simp add: orders_eval values_eval)

lemma orders_step_example:
  "orders_step example_builtins serial_sink 1000 [1 \<mapsto> 101] [''Widget'' \<mapsto> 501]
     (0, widget_row 1) (orders_init 0) =
   Inr \<lparr>db = 1, processed = 1,
        sent = [(0, [Integer 10, Integer 101, Integer 501, Null, Null, Integer 2, Null, Null, Null,
                     Null, Null, Null, Null, Null, Null, Null], Row 1)],
        order_map = [0 \<mapsto> 1], skipped_no_customer = 0, skipped_no_product = 0, skipped_error = 0,
        lookups = [(0, Customer_get (Some 1)), (0, Product_get (Some ''Widget''))]\<rparr>"
  by (simp add: orders_eval values_eval)

lemma import_shipping_example:
  "import_shipping example_builtins serial_sink 1000 [0 \<mapsto> 1] [widget_row 1, widget_row 2] 0 =
   Inr \<lparr>db = 1, processed = 1,
        sent = [(0, [Integer 1, Null, Null, Null, Null, Null, Integer 5], Row 1)],
        skipped = 1\<rparr>"
  by (simp add: shipping_eval values_eval)

section \<open>Claims on the shipping pass, on keys that are 0, on counters and on product names\<close>

text \<open>
  C6. At every point of the shipping pass (\<open>rows\<close> is any stretch of rows with their
  positions) and at its end: every insert into \<^verbatim>\<open>shipping_details\<close> was made for a
  position that has an entry in the order key map, this entry is not 0, and the first
  value sent, the order reference, is this entry; every position without an entry has
  added one to the skip counter. For a position without an entry the turn of the loop
  adds one to the skip counter and does nothing else.
\<close>

theorem shipping_attaches_to_orders:
  "(shipping_loop py snk b om rows d = Inr s \<longrightarrow>
      (\<forall>x\<in>set (sent s). \<exists>k rest. om (fst x) = Some k \<and> k \<noteq> 0 \<and> fst (snd x) = Integer k # rest) \<and>
      length (filter (\<lambda>x. om (fst x) = None) rows) \<le> skipped s) \<and>
   (import_shipping py snk b om df d = Inr sa \<longrightarrow>
      (\<forall>x\<in>set (sent sa). \<exists>k rest. om (fst x) = Some k \<and> k \<noteq> 0 \<and> fst (snd x) = Integer k # rest) \<and>
      length (filter (\<lambda>x. om (fst x) = None) (enumerate 0 df)) \<le> skipped sa) \<and>
   (om idx = None \<longrightarrow>
      shipping_step py snk b om (idx, row) sp = Inr (sp\<lparr>skipped := skipped sp + 1\<rparr>))"
proof -
  have loop: "(\<forall>x\<in>set (sent s). \<exists>k rest. om (fst x) = Some k \<and> k \<noteq> 0 \<and> fst (snd x) = Integer k # rest) \<and>
      length (filter (\<lambda>x. om (fst x) = None) rows) \<le> skipped s"
    if a: "shipping_loop py snk b om rows d = Inr s" for rows s
    using shipping_loop_sent[of py snk b om rows "shipping_init d" s]
      shipping_loop_skipped[of py snk b om rows "shipping_init d" s] a
    by (simp add: shipping_loop_def shipping_init_def)
  have whole: "(\<forall>x\<in>set (sent sa). \<exists>k rest. om (fst x) = Some k \<and> k \<noteq> 0 \<and> fst (snd x) = Integer k # rest) \<and>
      length (filter (\<lambda>x. om (fst x) = None) (enumerate 0 df)) \<le> skipped sa"
    if a: "import_shipping py snk b om df d = Inr sa"
  proof -
    from a obtain t where t: "shipping_loop py snk b om (enumerate 0 df) d = Inr t"
      and s: "sa = t\<lparr>db := snd (commit snk (db t))\<rparr>"
      by (rule import_shipping_Inr)
    from loop[OF t] show ?thesis by (simp add: s)
  qed
  have skip: "shipping_step py snk b om (idx, row) sp = Inr (sp\<lparr>skipped := skipped sp + 1\<rparr>)"
    if "om idx = None"
    using that by (simp add: shipping_step_skip truthy_def)
  from loop whole skip show ?thesis by blast
qed

theorem shipping_attaches_to_orders_witness:
  "shipping_loop example_builtins serial_sink 1000 [0 \<mapsto> 1]
     (enumerate 0 [widget_row 1, widget_row 2]) 0 =
   Inr \<lparr>db = 1, processed = 1,
        sent = [(0, [Integer 1, Null, Null, Null, Null, Null, Integer 5], Row 1)],
        skipped = 1\<rparr> \<and>
   import_shipping example_builtins serial_sink 1000 [0 \<mapsto> 1] [widget_row 1, widget_row 2] 0 =
   Inr \<lparr>db = 1, processed = 1,
        sent = [(0, [Integer 1, Null, Null, Null, Null, Null, Integer 5], Row 1)],
        skipped = 1\<rparr> \<and>
   (\<exists>k rest. [0 \<mapsto> 1] (0::nat) = Some k \<and> k \<noteq> (0::int) \<and>
       [Integer 1, Null, Null, Null, Null, Null, Integer 5] = Integer k # rest) \<and>
   length (filter (\<lambda>x. [0 \<mapsto> 1] (fst x) = (None :: int option))
             (enumerate 0 [widget_row 1, widget_row 2])) \<le> 1 \<and>
   [0 \<mapsto> (1::int)] (1::nat) = None \<and>
   shipping_step example_builtins serial_sink 1000 [0 \<mapsto> 1] (1, widget_row 2) (shipping_init 0) =
     Inr ((shipping_init (0::nat))\<lparr>skipped := 1\<rparr>)"
  using shipping_attaches_to_orders[of example_builtins serial_sink 1000 "[0 \<mapsto> 1]"
          "enumerate 0 [widget_row 1, widget_row 2]" 0 _ "[widget_row 1, widget_row 2]" _
          1 "widget_row 2" "shipping_init 0"]
        shipping_example import_shipping_example
  by (simp add: shipping_init_def)

text \<open>
  C10. An entry with the key 0 is as good as no entry: the order pass gives the same
  result with the two maps as they are and with their entries for the key 0 taken out,
  and so does the shipping pass with the order key map. A row whose customer lookup
  gives 0 is tallied under \<open>no_customer\<close>; a row whose customer lookup is true and
  whose product lookup gives 0 is tallied under \<open>no_product\<close>; a shipping row whose
  order key is 0 adds one to the skip counter.
\<close>

theorem zero_key_as_missing:
  "import_orders py snk b cm pm df d =
     import_orders py snk b (without_zero_keys cm) (without_zero_keys pm) df d \<and>
   import_shipping py snk b om df d = import_shipping py snk b (without_zero_keys om) df d \<and>
   (customer_lookup cm row = Some 0 \<longrightarrow>
      orders_step py snk b cm pm (idx, row) s =
        Inr (s\<lparr>lookups := lookups s @ row_lookups idx row,
               skipped_no_customer := skipped_no_customer s + 1\<rparr>)) \<and>
   (truthy (customer_lookup cm row) \<and> product_lookup pm row = Some 0 \<longrightarrow>
      orders_step py snk b cm pm (idx, row) s =
        Inr (s\<lparr>lookups := lookups s @ row_lookups idx row,
               skipped_no_product := skipped_no_product s + 1\<rparr>)) \<and>
   (om idx = Some 0 \<longrightarrow>
      shipping_step py snk b om (idx, row) s' = Inr (s'\<lparr>skipped := skipped s' + 1\<rparr>))"
proof -
  have 1: "orders_step py snk b (without_zero_keys cm) (without_zero_keys pm) = orders_step py snk b cm pm"
    by (intro ext) (rule orders_step_without_zero_keys)
  have 2: "shipping_step py snk b (without_zero_keys om) = shipping_step py snk b om"
    by (intro ext) (rule shipping_step_without_zero_keys)
  show ?thesis
    by (simp add: import_orders_def orders_loop_def import_shipping_def shipping_loop_def 1 2
        orders_step_skip_customer orders_step_skip_product shipping_step_skip truthy_def)
qed

theorem zero_key_as_missing_witness:
  "customer_lookup [1 \<mapsto> 0] (widget_row 1) = Some 0 \<and>
   orders_step example_builtins serial_sink 1000 [1 \<mapsto> 0] [''Widget'' \<mapsto> 501] (0, widget_row 1) (orders_init 0) =
     Inr ((orders_init 0)\<lparr>lookups := [(0, Customer_get (Some 1)), (0, Product_get (Some ''Widget''))],
                          skipped_no_customer := 1\<rparr>) \<and>
   truthy (customer_lookup [1 \<mapsto> 101] (widget_row 1)) \<and>
   product_lookup [''Widget'' \<mapsto> 0] (widget_row 1) = Some 0 \<and>
   orders_step example_builtins serial_sink 1000 [1 \<mapsto> 101] [''Widget'' \<mapsto> 0] (0, widget_row 1) (orders_init 0) =
     Inr ((orders_init 0)\<lparr>lookups := [(0, Customer_get (Some 1)), (0, Product_get (Some ''Widget''))],
                          skipped_no_product := 1\<rparr>) \<and>
   [0 \<mapsto> (0::int)] (0::nat) = Some 0 \<and>
   shipping_step example_builtins serial_sink 1000 [0 \<mapsto> 0] (0, widget_row 1) (shipping_init 0) =
     Inr ((shipping_init (0::nat))\<lparr>skipped := 1\<rparr>)"
  using zero_key_as_missing[of example_builtins serial_sink 1000 "[1 \<mapsto> 0]" "[''Widget'' \<mapsto> 501]" "[]" 0
          "[0 \<mapsto> 0]" "widget_row 1" 0 "orders_init 0" "shipping_init 0"]
        zero_key_as_missing[of example_builtins serial_sink 1000 "[1 \<mapsto> 101]" "[''Widget'' \<mapsto> 0]" "[]" 0
          "[0 \<mapsto> 0]" "widget_row 1" 0 "orders_init 0" "shipping_init 0"]
  by (simp add: truthy_def map_get_def widget_row_def example_row_def orders_init_def shipping_init_def
      strip_def is_space_def)

text \<open>
  C9. In the customer loader and in the order loader the counter of successes is the
  number of entries of the key map after every number \<open>n\<close> of turns of the loop and
  when the loader returns; a turn either leaves both as they were or adds one entry and
  adds one to the counter.
\<close>

theorem counter_agrees_with_map:
  "(let s = fold (customers_step py snk) (take n (customers_unique df)) (load_init d)
    in imported s = card (dom (key_map s))) \<and>
   (import_customers py snk df d = Inr sa \<longrightarrow> imported sa = card (dom (key_map sa))) \<and>
   ((key_map (customers_step py snk x s) = key_map s \<and>
       imported (customers_step py snk x s) = imported s) \<or>
    (\<exists>k. key_map (customers_step py snk x s) = (key_map s)(fst x \<mapsto> k) \<and>
       imported (customers_step py snk x s) = imported s + 1)) \<and>
   (orders_loop py snk' b cm pm (take n (enumerate 0 df)) d' = Inr sb \<longrightarrow>
      processed sb = card (dom (order_map sb))) \<and>
   (import_orders py snk' b cm pm df d' = Inr sc \<longrightarrow> processed sc = card (dom (order_map sc))) \<and>
   (orders_step py snk' b cm pm (idx, row) t = Inr t' \<longrightarrow>
      (order_map t' = order_map t \<and> processed t' = processed t) \<or>
      (\<exists>k. order_map t' = (order_map t)(idx \<mapsto> k) \<and> processed t' = processed t + 1))"
proof (intro conjI impI)
  show "let s = fold (customers_step py snk) (take n (customers_unique df)) (load_init d)
    in imported s = card (dom (key_map s))"
    by (simp add: Let_def customers_prefix_counts)
next
  assume a: "import_customers py snk df d = Inr sa"
  let ?t = "fold (customers_step py snk) (customers_unique df) (load_init d)"
  from a have "sa = ?t\<lparr>db := snd (commit snk (db ?t))\<rparr>"
    by (simp add: import_customers_def final_commit_Inr)
  then show "imported sa = card (dom (key_map sa))"
    using customers_prefix_counts[of py snk "length (customers_unique df)" df d] by simp
next
  show "(key_map (customers_step py snk x s) = key_map s \<and>
       imported (customers_step py snk x s) = imported s) \<or>
    (\<exists>k. key_map (customers_step py snk x s) = (key_map s)(fst x \<mapsto> k) \<and>
       imported (customers_step py snk x s) = imported s + 1)"
    by (rule customers_step_counts)
next
  assume "orders_loop py snk' b cm pm (take n (enumerate 0 df)) d' = Inr sb"
  then have "orders_loop py snk' b cm pm (enumerate 0 (take n df)) d' = Inr sb"
    by (simp add: take_enumerate)
  from orders_loop_invariant[OF this] show "processed sb = card (dom (order_map sb))" by blast
next
  assume "import_orders py snk' b cm pm df d' = Inr sc"
  then obtain t where t: "orders_loop py snk' b cm pm (enumerate 0 df) d' = Inr t"
    and s: "sc = t\<lparr>db := snd (commit snk' (db t))\<rparr>"
    by (rule import_orders_Inr)
  from orders_loop_invariant[OF t] show "processed sc = card (dom (order_map sc))"
    by (simp add: s)
next
  assume "orders_step py snk' b cm pm (idx, row) t = Inr t'"
  then show "(order_map t' = order_map t \<and> processed t' = processed t) \<or>
      (\<exists>k. order_map t' = (order_map t)(idx \<mapsto> k) \<and> processed t' = processed t + 1)"
    by (rule orders_step_counts)
qed

theorem counter_agrees_with_map_witness:
  "import_customers example_builtins serial_sink [widget_row 1, widget_row 2, widget_row 1] 0 =
     Inr \<lparr>db = 2, key_map = [1 \<mapsto> 1, 2 \<mapsto> 2], imported = 2\<rparr> \<and>
   (2::nat) = card (dom [1 \<mapsto> 1::int, (2::int) \<mapsto> 2]) \<and>
   orders_loop example_builtins serial_sink 1000 [1 \<mapsto> 101] [''Widget'' \<mapsto> 501]
     (take 1 (enumerate 0 [widget_row 1, widget_row 2])) 0 =
     Inr \<lparr>db = 1, processed = 1,
        sent = [(0, [Integer 10, Integer 101, Integer 501, Null, Null, Integer 2, Null, Null, Null,
                     Null, Null, Null, Null, Null, Null, Null], Row 1)],
        order_map = [0 \<mapsto> 1], skipped_no_customer = 0, skipped_no_product = 0, skipped_error = 0,
        lookups = [(0, Customer_get (Some 1)), (0, Product_get (Some ''Widget''))]\<rparr> \<and>
   import_orders example_builtins serial_sink 1000 [1 \<mapsto> 101] [''Widget'' \<mapsto> 501]
     [widget_row 1, widget_row 2] 0 =
     Inr \<lparr>db = 1, processed = 1,
        sent = [(0, [Integer 10, Integer 101, Integer 501, Null, Null, Integer 2, Null, Null, Null,
                     Null, Null, Null, Null, Null, Null, Null], Row 1)],
        order_map = [0 \<mapsto> 1], skipped_no_customer = 1, skipped_no_product = 0, skipped_error = 0,
        lookups = [(0, Customer_get (Some 1)), (0, Product_get (Some ''Widget'')),
                   (1, Customer_get (Some 2)), (1, Product_get (Some ''Widget''))]\<rparr> \<and>
   orders_step example_builtins serial_sink 1000 [1 \<mapsto> 101] [''Widget'' \<mapsto> 501]
     (0, widget_row 1) (orders_init 0) =
     Inr \<lparr>db = 1, processed = 1,
        sent = [(0, [Integer 10, Integer 101, Integer 501, Null, Null, Integer 2, Null, Null, Null,
                     Null, Null, Null, Null, Null, Null, Null], Row 1)],
        order_map = [0 \<mapsto> 1], skipped_no_customer = 0, skipped_no_product = 0, skipped_error = 0,
        lookups = [(0, Customer_get (Some 1)), (0, Product_get (Some ''Widget''))]\<rparr> \<and>
   (1::nat) = card (dom [(0::nat) \<mapsto> 1::int])"
  using counter_agrees_with_map[where py = example_builtins and snk = serial_sink and snk' = serial_sink
          and n = 1 and df = "[widget_row 1, widget_row 2]" and d = 0 and d' = 0 and b = 1000
          and cm = "[1 \<mapsto> 101]" and pm = "[''Widget'' \<mapsto> 501]" and idx = 0 and row = "widget_row 1"
          and t = "orders_init 0" and x = "(1, Map.empty)" and s = "load_init 0"
          and sa = "\<lparr>db = 2, key_map = [1 \<mapsto> 1, 2 \<mapsto> 2], imported = 2\<rparr>"
          and sb = "\<lparr>db = 1, processed = 1,
        sent = [(0, [Integer 10, Integer 101, Integer 501, Null, Null, Integer 2, Null, Null, Null,
                     Null, Null, Null, Null, Null, Null, Null], Row 1)],
        order_map = [0 \<mapsto> 1], skipped_no_customer = 0, skipped_no_product = 0, skipped_error = 0,
        lookups = [(0, Customer_get (Some 1)), (0, Product_get (Some ''Widget''))]\<rparr>"
          and sc = "\<lparr>db = 1, processed = 1,
        sent = [(0, [Integer 10, Integer 101, Integer 501, Null, Null, Integer 2, Null, Null, Null,
                     Null, Null, Null, Null, Null, Null, Null], Row 1)],
        order_map = [0 \<mapsto> 1], skipped_no_customer = 1, skipped_no_product = 0, skipped_error = 0,
        lookups = [(0, Customer_get (Some 1)), (0, Product_get (Some ''Widget'')),
                   (1, Customer_get (Some 2)), (1, Product_get (Some ''Widget''))]\<rparr>"
          and t' = "\<lparr>db = 1, processed = 1,
        sent = [(0, [Integer 10, Integer 101, Integer 501, Null, Null, Integer 2, Null, Null, Null,
                     Null, Null, Null, Null, Null, Null, Null], Row 1)],
        order_map = [0 \<mapsto> 1], skipped_no_customer = 0, skipped_no_product = 0, skipped_error = 0,
        lookups = [(0, Customer_get (Some 1)), (0, Product_get (Some ''Widget''))]\<rparr>"]
        counter_agrees_with_map[where py = example_builtins and snk = serial_sink and snk' = serial_sink
          and n = 1 and df = "[widget_row 1, widget_row 2, widget_row 1]" and d = 0 and d' = 0 and b = 1000
          and cm = "[1 \<mapsto> 101]" and pm = "[''Widget'' \<mapsto> 501]" and idx = 0 and row = "widget_row 1"
          and t = "orders_init 0" and x = "(1, Map.empty)" and s = "load_init 0"
          and sa = "\<lparr>db = 2, key_map = [1 \<mapsto> 1, 2 \<mapsto> 2], imported = 2\<rparr>"
          and sb = "\<lparr>db = 1, processed = 1,
        sent = [(0, [Integer 10, Integer 101, Integer 501, Null, Null, Integer 2, Null, Null, Null,
                     Null, Null, Null, Null, Null, Null, Null], Row 1)],
        order_map = [0 \<mapsto> 1], skipped_no_customer = 0, skipped_no_product = 0, skipped_error = 0,
        lookups = [(0, Customer_get (Some 1)), (0, Product_get (Some ''Widget''))]\<rparr>"
          and sc = "\<lparr>db = 1, processed = 1,
        sent = [(0, [Integer 10, Integer 101, Integer 501, Null, Null, Integer 2, Null, Null, Null,
                     Null, Null, Null, Null, Null, Null, Null], Row 1)],
        order_map = [0 \<mapsto> 1], skipped_no_customer = 1, skipped_no_product = 0, skipped_error = 0,
        lookups = [(0, Customer_get (Some 1)), (0, Product_get (Some ''Widget'')),
                   (1, Customer_get (Some 2)), (1, Product_get (Some ''Widget''))]\<rparr>"
          and t' = "\<lparr>db = 1, processed = 1,
        sent = [(0, [Integer 10, Integer 101, Integer 501, Null, Null, Integer 2, Null, Null, Null,
                     Null, Null, Null, Null, Null, Null, Null], Row 1)],
        order_map = [0 \<mapsto> 1], skipped_no_customer = 0, skipped_no_product = 0, skipped_error = 0,
        lookups = [(0, Customer_get (Some 1)), (0, Product_get (Some ''Widget''))]\<rparr>"]
        customers_example orders_prefix_example orders_example orders_step_example
  by simp

text \<open>
  C5. The rows whose product name is missing, blank once trimmed or the text
  \<^verbatim>\<open>nan\<close> give nothing to the catalogue: the rows kept for it are those of the frame
  without them, and neither the empty name nor \<^verbatim>\<open>nan\<close> nor the trimmed name of such
  a row is a name of the catalogue. So the product map that the product loader returns
  has no entry for the name of such a row, and no order pass that uses this map puts the
  position of such a row in its order key map.
\<close>

theorem unusable_names_excluded:
  "products df = products (filter (\<lambda>r. \<not> unusable_name (Product_Name r)) df) \<and>
   [] \<notin> fst ` set (products_unique df) \<and> ''nan'' \<notin> fst ` set (products_unique df) \<and>
   (unusable_name (Product_Name r) \<longrightarrow>
      strip (astype_str (Product_Name r)) \<notin> fst ` set (products_unique df)) \<and>
   (import_products py snk df d = Inr ps \<and> unusable_name (Product_Name r) \<longrightarrow>
      product_lookup (key_map ps) r = None) \<and>
   (import_products py snk df d = Inr ps \<and>
    import_orders py' snk' b cm (key_map ps) df' d' = Inr os \<and>
    i < length df' \<and> unusable_name (Product_Name (df' ! i)) \<longrightarrow> order_map os i = None)"
proof (intro conjI impI)
  show "products df = products (filter (\<lambda>r. \<not> unusable_name (Product_Name r)) df)"
    by (rule products_filter)
  show e: "[] \<notin> fst ` set (products_unique df)" and n: "''nan'' \<notin> fst ` set (products_unique df)"
    unfolding products_unique_keys by (rule products_no_bad_key)+
  {
    assume "unusable_name (Product_Name r)"
    then have "strip (astype_str (Product_Name r)) = [] \<or> strip (astype_str (Product_Name r)) = ''nan''"
      by (auto simp: unusable_name_def astype_str_def strip_nan split: option.splits)
    then show "strip (astype_str (Product_Name r)) \<notin> fst ` set (products_unique df)"
      using e n by metis
  }
  {
    assume "import_products py snk df d = Inr ps \<and> unusable_name (Product_Name r)"
    then have a1: "import_products py snk df d = Inr ps" and a2: "unusable_name (Product_Name r)"
      by simp_all
    show "product_lookup (key_map ps) r = None" by (rule unusable_not_a_key[OF a1 a2])
  }
  {
    assume a: "import_products py snk df d = Inr ps \<and>
      import_orders py' snk' b cm (key_map ps) df' d' = Inr os \<and>
      i < length df' \<and> unusable_name (Product_Name (df' ! i))"
    then have a1: "import_products py snk df d = Inr ps"
      and a2: "unusable_name (Product_Name (df' ! i))"
      and a3: "import_orders py' snk' b cm (key_map ps) df' d' = Inr os"
      by simp_all
    have l: "product_lookup (key_map ps) (df' ! i) = None" by (rule unusable_not_a_key[OF a1 a2])
    from a3 obtain t where t: "orders_loop py' snk' b cm (key_map ps) (enumerate 0 df') d' = Inr t"
      and s: "os = t\<lparr>db := snd (commit snk' (db t))\<rparr>"
      by (rule import_orders_Inr)
    show "order_map os i = None"
    proof (rule ccontr)
      assume "order_map os i \<noteq> None"
      then obtain k where "order_map t i = Some k" using s by auto
      then obtain vals where "(i, vals, Row k) \<in> set (sent t)"
        using orders_loop_invariant[OF t] by blast
      then have "truthy (product_lookup (key_map ps) (df' ! i))"
        using orders_loop_invariant[OF t] by fastforce
      with l show False by (simp add: truthy_def)
    qed
  }
qed

theorem unusable_names_excluded_witness:
  "unusable_name (Product_Name (example_row (Some 1) (Some '' nan '') PyNone)) \<and>
   strip (astype_str (Product_Name (example_row (Some 1) (Some '' nan '') PyNone))) \<notin>
     fst ` set (products_unique
       [widget_row 1, example_row (Some 1) None PyNone, example_row (Some 1) (Some ''  '') PyNone,
        example_row (Some 1) (Some '' nan '') PyNone]) \<and>
   import_products example_builtins serial_sink
     [widget_row 1, example_row (Some 1) None PyNone, example_row (Some 1) (Some ''  '') PyNone,
      example_row (Some 1) (Some '' nan '') PyNone] 0 =
     Inr \<lparr>db = 1, key_map = [''Widget'' \<mapsto> 1], imported = 1\<rparr> \<and>
   product_lookup [''Widget'' \<mapsto> 1] (example_row (Some 1) (Some '' nan '') PyNone) = None \<and>
   import_orders example_builtins serial_sink 1000 [1 \<mapsto> 101] [''Widget'' \<mapsto> 1]
     [widget_row 1, example_row (Some 1) None PyNone, example_row (Some 1) (Some ''  '') PyNone,
      example_row (Some 1) (Some '' nan '') PyNone] 0 =
     Inr \<lparr>db = 1, processed = 1,
        sent = [(0, [Integer 10, Integer 101, Integer 1, Null, Null, Integer 2, Null, Null, Null,
                     Null, Null, Null, Null, Null, Null, Null], Row 1)],
        order_map = [0 \<mapsto> 1], skipped_no_customer = 0, skipped_no_product = 3, skipped_error = 0,
        lookups = [(0, Customer_get (Some 1)), (0, Product_get (Some ''Widget'')),
                   (1, Customer_get (Some 1)), (1, Product_get None),
                   (2, Customer_get (Some 1)), (2, Product_get (Some [])),
                   (3, Customer_get (Some 1)), (3, Product_get (Some ''nan''))]\<rparr> \<and>
   (3::nat) < length [widget_row 1, example_row (Some 1) None PyNone, example_row (Some 1) (Some ''  '') PyNone,
      example_row (Some 1) (Some '' nan '') PyNone] \<and>
   [0 \<mapsto> 1::int] (3::nat) = None"
proof -
  have u: "unusable_name (Product_Name (example_row (Some 1) (Some '' nan '') PyNone))"
    by (simp add: unusable_name_def example_row_def strip_def is_space_def)
  show ?thesis
    using unusable_names_excluded[where r = "example_row (Some 1) (Some '' nan '') PyNone"
          and df = "[widget_row 1, example_row (Some 1) None PyNone, example_row (Some 1) (Some ''  '') PyNone,
                     example_row (Some 1) (Some '' nan '') PyNone]"
          and df' = "[widget_row 1, example_row (Some 1) None PyNone, example_row (Some 1) (Some ''  '') PyNone,
                     example_row (Some 1) (Some '' nan '') PyNone]"
          and py = example_builtins and py' = example_builtins and snk = serial_sink and snk' = serial_sink
          and d = 0 and d' = 0 and b = 1000 and cm = "[1 \<mapsto> 101]" and i = 3
          and ps = "\<lparr>db = 1, key_map = [''Widget'' \<mapsto> 1], imported = 1\<rparr>"]
      u products_example orders_after_products_example
    by simp
qed

section \<open>Claims on deduplication, on the coercions and on the email of a customer\<close>

lemma first_valid_Cons:
  "first_valid na (v # vs) = (if pd_notna v then v else first_valid na vs)"
  by (simp add: first_valid_def)

lemma customers_group:
  "filter (\<lambda>x. fst x = k) (customers df) =
   map (\<lambda>r. (k, cells r |` set customer_cols)) (filter (\<lambda>r. Customer_Id r = Some k) df)"
  by (induction df) (auto simp: customers_def List.map_filter_def split: option.splits)

lemma customers_keys: "fst ` set (customers df) = {k. \<exists>r\<in>set df. Customer_Id r = Some k}"
  by (force simp: customers_def List.map_filter_def split: option.splits)

lemma get_restrict: "(row |` S) c = Some v \<Longrightarrow> get (row' |` S) c = get row' c"
  by (auto simp: get_def restrict_map_def split: if_splits)

text \<open>
  C2, as stated, fails: the row kept for a customer is not the first row of that customer
  taken whole. Customer 1 comes twice; the first of its rows has no email and the first
  name Ann, the second has an email and the first name Bob. The row kept for customer 1
  has the email of the second row and the first name of the first.
\<close>

theorem first_row_counterexample:
  "map (\<lambda>r. (Customer_Id r, cells r ''Customer Email'', cells r ''Customer Fname''))
     duplicated_customer =
   [(Some 1, Some (PyFloat NaN), Some (PyStr ''Ann'')),
    (Some 2, Some (PyStr ''eve@example.com''), Some (PyStr ''Eve'')),
    (Some 1, Some (PyStr ''bob@example.com''), Some (PyStr ''Bob''))] \<and>
   map (\<lambda>x. (fst x, snd x ''Customer Email'', snd x ''Customer Fname''))
     (customers_unique duplicated_customer) =
   [(1, Some (PyStr ''bob@example.com''), Some (PyStr ''Ann'')),
    (2, Some (PyStr ''eve@example.com''), Some (PyStr ''Eve''))]"
  by (simp add: dedup_eval duplicated_customer_def customer_row_def get_def pd_notna_def)

text \<open>
  C2, amended. Deduplication keeps one row for each customer identifier of the source.
  Each field of this row is the value that the first row of this customer has for it,
  when this value is not missing, and otherwise the first value of the field that is not
  missing among the later rows of the customer, in the order of the source (a missing
  marker when there is none): a later duplicate gives the fields that the earlier rows
  lack, and nothing else.
\<close>

theorem canonical_customer_fields:
  "distinct (map fst (customers_unique df)) \<and>
   fst ` set (customers_unique df) = {k. \<exists>r\<in>set df. Customer_Id r = Some k} \<and>
   ((k, m) \<in> set (customers_unique df) \<longrightarrow>
      (\<exists>r rs. filter (\<lambda>x. Customer_Id x = Some k) df = r # rs \<and>
         (\<forall>c. m c = (case (cells r |` set customer_cols) c of
                        None \<Rightarrow> None
                      | Some v \<Rightarrow> Some (if pd_notna v then v
                                       else first_valid (na_value df c) (map (\<lambda>x. get (cells x) c) rs))))))"
proof (intro conjI impI)
  show "distinct (map fst (customers_unique df))"
    by (simp add: customers_unique_def groupby_first_distinct)
  have "set (map fst (customers_unique df)) = set (map fst (customers df))"
    by (simp add: customers_unique_def groupby_first_keys)
  then show keys: "fst ` set (customers_unique df) = {k. \<exists>r\<in>set df. Customer_Id r = Some k}"
    by (simp add: customers_keys)
  assume km: "(k, m) \<in> set (customers_unique df)"
  then have "k \<in> fst ` set (customers_unique df)" by force
  then obtain r0 where "r0 \<in> set df" "Customer_Id r0 = Some k" using keys by auto
  then have "filter (\<lambda>x. Customer_Id x = Some k) df \<noteq> []" by (auto simp: filter_empty_conv)
  then obtain r rs where g: "filter (\<lambda>x. Customer_Id x = Some k) df = r # rs"
    by (cases "filter (\<lambda>x. Customer_Id x = Some k) df") auto
  from km have m: "m = group_first (na_value df) (map snd (filter (\<lambda>x. fst x = k) (customers df)))"
    by (auto simp: customers_unique_def groupby_first_def)
  have "m c = (case (cells r |` set customer_cols) c of
                        None \<Rightarrow> None
                      | Some v \<Rightarrow> Some (if pd_notna v then v
                                       else first_valid (na_value df c) (map (\<lambda>x. get (cells x) c) rs)))" for c
  proof (cases "(cells r |` set customer_cols) c")
    case None
    then show ?thesis by (simp add: m customers_group g group_first_def comp_def)
  next
    case (Some v)
    have "map (\<lambda>x. get (cells x |` set customer_cols) c) rs = map (\<lambda>x. get (cells x) c) rs"
      using get_restrict[OF Some] by simp
    then have "first_valid (na_value df c) (map (\<lambda>x. get (cells x |` set customer_cols) c) rs) =
               first_valid (na_value df c) (map (\<lambda>x. get (cells x) c) rs)"
      by (rule arg_cong)
    moreover have "get (cells r |` set customer_cols) c = v" using Some by (simp add: get_def)
    ultimately show ?thesis
      using Some by (simp add: m customers_group g group_first_def comp_def first_valid_Cons)
  qed
  with g show "\<exists>r rs. filter (\<lambda>x. Customer_Id x = Some k) df = r # rs \<and>
         (\<forall>c. m c = (case (cells r |` set customer_cols) c of
                        None \<Rightarrow> None
                      | Some v \<Rightarrow> Some (if pd_notna v then v
                                       else first_valid (na_value df c) (map (\<lambda>x. get (cells x) c) rs))))"
    by blast
qed

theorem canonical_customer_fields_witness:
  "(1, snd (hd (customers_unique duplicated_customer))) \<in> set (customers_unique duplicated_customer) \<and>
   (\<exists>r rs. filter (\<lambda>x. Customer_Id x = Some 1) duplicated_customer = r # rs \<and>
      (\<forall>c. snd (hd (customers_unique duplicated_customer)) c =
         (case (cells r |` set customer_cols) c of
            None \<Rightarrow> None
          | Some v \<Rightarrow> Some (if pd_notna v then v
                           else first_valid (na_value duplicated_customer c)
                                  (map (\<lambda>x. get (cells x) c) rs)))))"
proof -
  have mem: "(1, snd (hd (customers_unique duplicated_customer))) \<in> set (customers_unique duplicated_customer)"
    by (simp add: dedup_eval duplicated_customer_def customer_row_def)
  from canonical_customer_fields[of duplicated_customer 1 "snd (hd (customers_unique duplicated_customer))"] mem
  show ?thesis by blast
qed

text \<open>
  The coercions on the examples of the specification, and what they can raise:
  \<open>clean_numeric\<close> raises nothing, \<open>clean_int\<close> raises nothing but
  \<^verbatim>\<open>OverflowError\<close>.
\<close>

lemma coercion_examples:
  "clean_numeric example_builtins (PyStr []) = Inr None"
  "clean_numeric example_builtins PyNone = Inr None"
  "clean_numeric example_builtins (PyFloat NaN) = Inr None"
  "clean_int example_builtins (PyStr ''5.0'') = Inr (Some 5)"
  "clean_int example_builtins (PyStr ''abc'') = Inr None"
  by (simp_all add: clean_numeric_def clean_int_def example_builtins_def)

lemma truncation_examples:
  "clean_int example_builtins (PyFloat (Finite (7/2))) = Inr (Some 3)"
  "clean_int example_builtins (PyFloat (Finite (-7/2))) = Inr (Some (-3))"
  by code_simp+

lemma clean_numeric_total: "\<exists>r. clean_numeric py v = Inr r"
  by (cases v) (auto simp: clean_numeric_def split: option.splits)

lemma clean_int_cases:
  "clean_int py v = Inl OverflowError \<or> (\<exists>r. clean_int py v = Inr r)"
proof (cases "pd_isna v")
  case True
  then show ?thesis by (simp add: clean_int_def)
next
  case False
  show ?thesis
  proof (cases "py_float py v")
    case (Inl e)
    then have "e = ValueError \<or> e = TypeError" by (cases v) (auto split: option.splits)
    with Inl False show ?thesis by (auto simp: clean_int_def)
  next
    case (Inr f)
    with False show ?thesis by (cases f) (auto simp: clean_int_def)
  qed
qed

lemma clean_int_overflow_text:
  "float_of_str py s = Some PosInf \<Longrightarrow> clean_int py (PyStr s) = Inl OverflowError"
  by (simp add: clean_int_def)

text \<open>
  C7 does not hold of the code: on an infinite float \<open>clean_int\<close> raises
  \<^verbatim>\<open>OverflowError\<close>, which its handler \<^verbatim>\<open>except (ValueError, TypeError)\<close> lets
  through, where the claim and the docstring of the function say that it returns
  \<^verbatim>\<open>None\<close>.
\<close>

theorem coerce_integer_raises: "clean_int py (PyFloat PosInf) = Inl OverflowError"
  by (simp add: clean_int_def)

text \<open>In the order pass the exception is not caught either: the pass stops at such a row.\<close>

lemma orders_abort_example:
  "import_orders example_builtins serial_sink 1000 [1 \<mapsto> 101] [''Widget'' \<mapsto> 501]
     [widget_row 1,
      (widget_row 1)\<lparr>cells := [''Order Item Quantity'' \<mapsto> PyFloat PosInf]\<rparr>,
      widget_row 1] 0 = Inl OverflowError"
  by (simp add: orders_eval values_eval)

text \<open>
  C8 does not hold of the code: the default of \<^verbatim>\<open>row.get('Customer Email', ...)\<close> is
  used only when the frame has no such column. For a customer whose email is missing
  in the column, the value sent as email is the text of the missing marker.
\<close>

theorem missing_email_sent_as_text:
  "map (case_prod (customer_values py))
     (customers_unique [customer_row 7 (PyFloat NaN) (PyStr ''Ann'')]) =
   [Inr [Text ''nan'', Text ''Ann'', Text [], Null, Null, Null, Null, Null, Null, Null, Null]]"
  by (simp add: dedup_eval customer_row_def values_eval)

lemma missing_email_object_column:
  "map (case_prod (customer_email py))
     (customers_unique [customer_row 7 (PyFloat NaN) (PyStr ''Ann''),
                        customer_row 8 (PyStr ''eve@example.com'') (PyStr ''Eve'')]) =
   [''None'', ''eve@example.com'']"
  by (simp add: dedup_eval customer_row_def values_eval)

lemma email_of_missing_value:
  "row ''Customer Email'' = Some v \<Longrightarrow> pd_isna v \<Longrightarrow>
   customer_email py k row = ''None'' \<or> customer_email py k row = ''nan''"
  by (cases v rule: pd_isna.cases) (auto simp: customer_email_def get_default_def)

lemma email_placeholder_without_column:
  "row ''Customer Email'' = None \<Longrightarrow>
   customer_email py k row = ''customer_'' @ str_int k @ ''@placeholder.com''"
  by (simp add: customer_email_def get_default_def)

lemma placeholder_example:
  "map (case_prod (customer_email py))
     (customers_unique [\<lparr>Customer_Id = Some 7, Product_Name = None,
                          cells = [''Customer Fname'' \<mapsto> PyStr ''Ann'']\<rparr>]) =
   [''customer_7@placeholder.com'']"
  by (simp add: dedup_eval values_eval str_int_def digits.simps)

end
